theory Spec2Isabelle
  imports Complex_Main
begin

section \<open>JavaScript strings and arrays\<close>

text \<open>
  Strings are lists of characters. FEN text is ASCII, and the model covers strings of code
  units below 256. The comparisons \<^verbatim>\<open>char >= '1' && char <= '8'\<close>,
  \<^verbatim>\<open>char >= 'A' && char <= 'Z'\<close> of \<^verbatim>\<open>App.jsx\<close> compare
  one-character strings, that is, code units.
\<close>

definition is_digit18 :: "char \<Rightarrow> bool" where
  "is_digit18 c \<longleftrightarrow> 49 \<le> (of_char c :: nat) \<and> (of_char c :: nat) \<le> 56"

definition is_upper :: "char \<Rightarrow> bool" where
  "is_upper c \<longleftrightarrow> 65 \<le> (of_char c :: nat) \<and> (of_char c :: nat) \<le> 90"

definition is_lower :: "char \<Rightarrow> bool" where
  "is_lower c \<longleftrightarrow> 97 \<le> (of_char c :: nat) \<and> (of_char c :: nat) \<le> 122"

text \<open>
  \<^verbatim>\<open>toLowerCase\<close> and \<^verbatim>\<open>toUpperCase\<close> on one character. Only the
  ASCII letters are moved; no other code unit below 256 is mapped onto an ASCII letter by
  JavaScript either, which is all the table lookups of the program depend on.
\<close>

definition toLowerCase :: "char \<Rightarrow> char" where
  "toLowerCase c = (if is_upper c then char_of ((of_char c :: nat) + 32) else c)"

definition toUpperCase :: "char \<Rightarrow> char" where
  "toUpperCase c = (if is_lower c then char_of ((of_char c :: nat) - 32) else c)"

text \<open>\<^verbatim>\<open>parseInt(char, 10)\<close> on a decimal digit.\<close>

definition parseInt_digit :: "char \<Rightarrow> nat" where
  "parseInt_digit c = (of_char c :: nat) - 48"

text \<open>A number appended to a string: its decimal digits.\<close>

fun show_nat :: "nat \<Rightarrow> string" where
  "show_nat n =
     (if n < 10 then [char_of (48 + n)]
      else show_nat (n div 10) @ [char_of (48 + n mod 10)])"

declare show_nat.simps [simp del]

text \<open>
  \<^verbatim>\<open>s.split(sep)\<close> for a one-character separator: the empty string gives one
  empty part, and two separators in a row give an empty part between them.
\<close>

fun split_on :: "char \<Rightarrow> string \<Rightarrow> string list" where
  "split_on sep [] = [[]]"
| "split_on sep (c # cs) =
     (let ps = split_on sep cs
      in if c = sep then [] # ps else (c # hd ps) # tl ps)"

text \<open>\<^verbatim>\<open>parts.join(sep)\<close>.\<close>

fun join_with :: "string \<Rightarrow> string list \<Rightarrow> string" where
  "join_with sep [] = []"
| "join_with sep [p] = p"
| "join_with sep (p # q # ps) = p @ sep @ join_with sep (q # ps)"

text \<open>\<^verbatim>\<open>xs[i]\<close>: \<^verbatim>\<open>undefined\<close> beyond the end of the array.\<close>

definition nth_opt :: "'a list \<Rightarrow> nat \<Rightarrow> 'a option" where
  "nth_opt xs i = (if i < length xs then Some (xs ! i) else None)"

text \<open>\<^verbatim>\<open>parts[i] || dflt\<close>: the default replaces \<^verbatim>\<open>undefined\<close> and the empty string.\<close>

definition or_default :: "string option \<Rightarrow> string \<Rightarrow> string" where
  "or_default v dflt = (case v of None \<Rightarrow> dflt | Some s \<Rightarrow> if s = [] then dflt else s)"

text \<open>A value interpolated into a template literal.\<close>

definition interpolate :: "string option \<Rightarrow> string" where
  "interpolate v = (case v of None \<Rightarrow> ''undefined'' | Some s \<Rightarrow> s)"

text \<open>The six-field template \<^verbatim>\<open>`${a} ${b} ${c} ${d} ${e} ${f}`\<close>.\<close>

definition fen_template :: "string \<Rightarrow> string \<Rightarrow> string \<Rightarrow> string \<Rightarrow> string \<Rightarrow> string \<Rightarrow> string" where
  "fen_template a b c d e f = a @ '' '' @ b @ '' '' @ c @ '' '' @ d @ '' '' @ e @ '' '' @ f"

definition DEFAULT_FEN_PARTS :: "string list" where
  "DEFAULT_FEN_PARTS = ['''', ''w'', ''-'', ''-'', ''0'', ''1'']"


section \<open>Pieces and the board\<close>

datatype piece_type = Pawn | Rook | Knight | Bishop | Queen | King

datatype color = White | Black

record piece =
  ptype :: piece_type
  pcolor :: color

type_synonym board = "piece option list list"

text \<open>The table \<^verbatim>\<open>fenToPieceType\<close> and its inverse \<^verbatim>\<open>pieceTypeToFEN\<close>.\<close>

definition fenToPieceType :: "char \<Rightarrow> piece_type option" where
  "fenToPieceType c =
     (if c = CHR ''p'' then Some Pawn
      else if c = CHR ''r'' then Some Rook
      else if c = CHR ''n'' then Some Knight
      else if c = CHR ''b'' then Some Bishop
      else if c = CHR ''q'' then Some Queen
      else if c = CHR ''k'' then Some King
      else None)"

fun pieceTypeToFEN :: "piece_type \<Rightarrow> char" where
  "pieceTypeToFEN Pawn = CHR ''p''"
| "pieceTypeToFEN Rook = CHR ''r''"
| "pieceTypeToFEN Knight = CHR ''n''"
| "pieceTypeToFEN Bishop = CHR ''b''"
| "pieceTypeToFEN Queen = CHR ''q''"
| "pieceTypeToFEN King = CHR ''k''"

text \<open>
  The body of the \<^verbatim>\<open>else\<close> branch of the rank scanner: a letter of the table is a
  piece, white when it is an upper-case letter; any other character is no piece.
\<close>

definition piece_of_char :: "char \<Rightarrow> piece option" where
  "piece_of_char c =
     (let isWhite = is_upper c; pieceType = toLowerCase c
      in case fenToPieceType pieceType of
           None \<Rightarrow> None
         | Some ty \<Rightarrow> Some \<lparr>ptype = ty, pcolor = (if isWhite then White else Black)\<rparr>)"

definition piece_char :: "piece \<Rightarrow> char" where
  "piece_char p =
     (let pieceChar = pieceTypeToFEN (ptype p)
      in if pcolor p = White then toUpperCase pieceChar else pieceChar)"

text \<open>
  The inner loop \<^verbatim>\<open>for (j = 0; j < ranks[i].length && col < 8; j++)\<close> that fills
  one row of the board: a digit 1 to 8 advances the column (clamped at 8), any other
  character takes one column and is stored when it is a piece letter.
\<close>

fun parse_rank :: "string \<Rightarrow> nat \<Rightarrow> piece option list \<Rightarrow> piece option list" where
  "parse_rank [] col row = row"
| "parse_rank (c # cs) col row =
     (if col < 8 then
        (if is_digit18 c then parse_rank cs (min 8 (col + parseInt_digit c)) row
         else
           let row' = (case piece_of_char c of None \<Rightarrow> row | Some p \<Rightarrow> row[col := Some p])
           in if col + 1 > 8 then row' else parse_rank cs (col + 1) row')
      else row)"

definition empty_row :: "piece option list" where
  "empty_row = replicate 8 None"

definition parse_board :: "string list \<Rightarrow> board" where
  "parse_board ranks = map (\<lambda>r. if r = [] then empty_row else parse_rank r 0 empty_row) ranks"

text \<open>
  The loop that writes one row back: empty squares are counted and the count is written
  before the next piece and at the end of the row.
\<close>

fun encode_rank :: "piece option list \<Rightarrow> nat \<Rightarrow> string" where
  "encode_rank [] emptyCount = (if emptyCount > 0 then show_nat emptyCount else [])"
| "encode_rank (None # sqs) emptyCount = encode_rank sqs (emptyCount + 1)"
| "encode_rank (Some p # sqs) emptyCount =
     (if emptyCount > 0 then show_nat emptyCount else []) @ piece_char p # encode_rank sqs 0"

definition encode_board :: "board \<Rightarrow> string" where
  "encode_board b = join_with ''/'' (map (\<lambda>row. encode_rank row 0) b)"

text \<open>
  A square name such as \<^verbatim>\<open>e2\<close>: two characters, file a to h, rank 1 to 8. The
  result is the pair (row, column) with \<^verbatim>\<open>row = 8 - rank\<close> and
  \<^verbatim>\<open>col = file.charCodeAt(0) - 97\<close>.
\<close>

definition valid_square :: "string \<Rightarrow> bool" where
  "valid_square sq \<longleftrightarrow>
     (case sq of
        [f, r] \<Rightarrow> 97 \<le> (of_char f :: nat) \<and> (of_char f :: nat) \<le> 104 \<and> is_digit18 r
      | _ \<Rightarrow> False)"

definition square_row :: "string \<Rightarrow> nat" where
  "square_row sq = 8 - parseInt_digit (sq ! 1)"

definition square_col :: "string \<Rightarrow> nat" where
  "square_col sq = (of_char (sq ! 0) :: nat) - 97"

definition board_get :: "board \<Rightarrow> nat \<Rightarrow> nat \<Rightarrow> piece option" where
  "board_get b r c = b ! r ! c"

definition board_set :: "board \<Rightarrow> nat \<Rightarrow> nat \<Rightarrow> piece option \<Rightarrow> board" where
  "board_set b r c v = b[r := (b ! r)[c := v]]"


section \<open>Application state and the rules library\<close>

text \<open>
  The component keeps the FEN text \<^verbatim>\<open>fen\<close>, the \<^verbatim>\<open>Chess\<close> object
  \<^verbatim>\<open>game\<close> (held here as the text its \<^verbatim>\<open>fen()\<close> returns), the palette piece
  being dragged, the flip flag and the error message.

  The rules library chess.js is not part of the repository. It enters every handler as the
  parameter \<open>chess\<close>: \<open>chess f\<close> is \<open>None\<close> when \<^verbatim>\<open>new Chess(f)\<close> throws and
  \<open>Some g\<close> when it succeeds and \<^verbatim>\<open>.fen()\<close> of the new object is \<open>g\<close>.
\<close>

record app_state =
  fen :: string
  game :: string
  draggedPiece :: "piece option"
  isBoardFlipped :: bool
  processingError :: "string option"

type_synonym chess_lib = "string \<Rightarrow> string option"

text \<open>\<^verbatim>\<open>gameFen[1] = preservedTurn\<close> on the array of parts.\<close>

fun set_turn_part :: "string list \<Rightarrow> string \<Rightarrow> string list" where
  "set_turn_part [] t = [[], t]"
| "set_turn_part [a] t = [a, t]"
| "set_turn_part (a # b # rest) t = a # t # rest"

text \<open>
  The block that follows \<^verbatim>\<open>setFen(newFen)\<close> in \<^verbatim>\<open>onDrop\<close>,
  \<^verbatim>\<open>handleSquareRightClick\<close> and \<^verbatim>\<open>enhancedOnDrop\<close>: the new text is given
  to the library; when the library answers with another turn, the turn is put back and
  the corrected text replaces the FEN if the library accepts it.
\<close>

definition sync_game :: "chess_lib \<Rightarrow> string \<Rightarrow> string \<Rightarrow> app_state \<Rightarrow> app_state" where
  "sync_game chess newFen preservedTurn s =
     (case chess newFen of
        None \<Rightarrow> s
      | Some g \<Rightarrow>
          let gameFen = split_on CHR '' '' g
          in if nth_opt gameFen 1 \<noteq> Some preservedTurn then
               let correctedFen = join_with '' '' (set_turn_part gameFen preservedTurn)
               in (case chess correctedFen of
                     Some cg \<Rightarrow> s\<lparr>fen := correctedFen, game := cg\<rparr>
                   | None \<Rightarrow> s\<lparr>game := g\<rparr>)
             else s\<lparr>game := g\<rparr>)"

text \<open>
  The text built after an edit: the new board with the five other fields of the FEN from
  before the edit, each replaced by its default when missing or empty.
\<close>

definition rebuild_fen :: "board \<Rightarrow> string list \<Rightarrow> string" where
  "rebuild_fen b fenParts =
     fen_template (encode_board b)
       (or_default (nth_opt fenParts 1) (DEFAULT_FEN_PARTS ! 1))
       (or_default (nth_opt fenParts 2) (DEFAULT_FEN_PARTS ! 2))
       (or_default (nth_opt fenParts 3) (DEFAULT_FEN_PARTS ! 3))
       (or_default (nth_opt fenParts 4) (DEFAULT_FEN_PARTS ! 4))
       (or_default (nth_opt fenParts 5) (DEFAULT_FEN_PARTS ! 5))"

definition commit_board :: "chess_lib \<Rightarrow> board \<Rightarrow> string list \<Rightarrow> app_state \<Rightarrow> app_state" where
  "commit_board chess b fenParts s =
     (let preservedTurn = or_default (nth_opt fenParts 1) (DEFAULT_FEN_PARTS ! 1);
          newFen = rebuild_fen b fenParts
      in sync_game chess newFen preservedTurn (s\<lparr>fen := newFen\<rparr>))"

text \<open>
  The checks every edit makes before it touches the board: the FEN is a non-empty string
  with at least six parts, a non-empty first part, and eight ranks.
\<close>

definition editable_parts :: "string \<Rightarrow> (string list \<times> board) option" where
  "editable_parts f =
     (if f = [] then None
      else
        let fenParts = split_on CHR '' '' f
        in if length fenParts < 6 \<or> fenParts ! 0 = [] then None
           else
             let ranks = split_on CHR ''/'' (fenParts ! 0)
             in if length ranks \<noteq> 8 then None
                else Some (fenParts, parse_board ranks))"


section \<open>The board edits\<close>

text \<open>\<^verbatim>\<open>onDrop(sourceSquare, targetSquare)\<close>: the move of a piece on the board.\<close>

definition onDrop :: "chess_lib \<Rightarrow> string \<Rightarrow> string \<Rightarrow> app_state \<Rightarrow> bool \<times> app_state" where
  "onDrop chess sourceSquare targetSquare s =
     (if \<not> valid_square sourceSquare \<or> \<not> valid_square targetSquare then (False, s)
      else
        case editable_parts (fen s) of
          None \<Rightarrow> (False, s)
        | Some (fenParts, b) \<Rightarrow>
            (case board_get b (square_row sourceSquare) (square_col sourceSquare) of
               None \<Rightarrow> (False, s)
             | Some p \<Rightarrow>
                 let b1 = board_set b (square_row sourceSquare) (square_col sourceSquare) None;
                     b2 = board_set b1 (square_row targetSquare) (square_col targetSquare) (Some p)
                 in (True, commit_board chess b2 fenParts s)))"

text \<open>\<^verbatim>\<open>handleSquareRightClick(square)\<close>: the removal of a piece.\<close>

definition handleSquareRightClick :: "chess_lib \<Rightarrow> string \<Rightarrow> app_state \<Rightarrow> app_state" where
  "handleSquareRightClick chess square s =
     (if \<not> valid_square square then s
      else
        case editable_parts (fen s) of
          None \<Rightarrow> s
        | Some (fenParts, b) \<Rightarrow>
            (case board_get b (square_row square) (square_col square) of
               None \<Rightarrow> s
             | Some p \<Rightarrow>
                 commit_board chess (board_set b (square_row square) (square_col square) None)
                   fenParts s))"

text \<open>
  \<^verbatim>\<open>enhancedOnDrop(sourceSquare, targetSquare)\<close>: a palette piece is placed when one
  is being dragged and there is no source square; a drop with a source square is a move.
\<close>

definition enhancedOnDrop ::
    "chess_lib \<Rightarrow> string option \<Rightarrow> string \<Rightarrow> app_state \<Rightarrow> bool \<times> app_state" where
  "enhancedOnDrop chess sourceSquare targetSquare s =
     (let noSource = (sourceSquare = None \<or> sourceSquare = Some [])
      in case draggedPiece s of
           Some dp \<Rightarrow>
             if noSource then
               (let s0 = s\<lparr>draggedPiece := None\<rparr>
                in if \<not> valid_square targetSquare then (False, s0)
                   else
                     case editable_parts (fen s) of
                       None \<Rightarrow> (False, s0)
                     | Some (fenParts, b) \<Rightarrow>
                         (True,
                          commit_board chess
                            (board_set b (square_row targetSquare) (square_col targetSquare)
                               (Some \<lparr>ptype = ptype dp, pcolor = pcolor dp\<rparr>))
                            fenParts s0))
             else onDrop chess (the sourceSquare) targetSquare s
         | None \<Rightarrow>
             if noSource then (False, s) else onDrop chess (the sourceSquare) targetSquare s)"


section \<open>Structural validation of a FEN\<close>

text \<open>
  White space of \<^verbatim>\<open>trim()\<close> and of the pattern \<^verbatim>\<open>\s\<close>, among the code
  units below 256: tab, line feed, vertical tab, form feed, carriage return, space and the
  no-break space.
\<close>

definition is_space :: "char \<Rightarrow> bool" where
  "is_space c \<longleftrightarrow> (of_char c :: nat) \<in> {9, 10, 11, 12, 13, 32, 160}"

definition trim :: "string \<Rightarrow> string" where
  "trim s = rev (dropWhile is_space (rev (dropWhile is_space s)))"

text \<open>\<^verbatim>\<open>s.split(/\s+/)\<close>: the parts between maximal runs of white space.\<close>

function split_ws :: "string \<Rightarrow> string list" where
  "split_ws [] = [[]]"
| "split_ws (c # cs) =
     (if is_space c then [] # split_ws (dropWhile is_space cs)
      else let ps = split_ws cs in (c # hd ps) # tl ps)"
  by pat_completeness auto
termination
  by (relation "measure length") (auto simp: length_dropWhile_le less_Suc_eq_le)

text \<open>The pattern \<^verbatim>\<open>/^[rnbqkpRNBQKP1-8]+$/\<close>.\<close>

definition validFENChars :: "string \<Rightarrow> bool" where
  "validFENChars rank \<longleftrightarrow> rank \<noteq> [] \<and> list_all (\<lambda>c. c \<in> set ''rnbqkpRNBQKP12345678'') rank"

text \<open>The loop that counts the squares of a rank.\<close>

fun count_squares :: "string \<Rightarrow> nat \<Rightarrow> nat" where
  "count_squares [] squareCount = squareCount"
| "count_squares (c # cs) squareCount =
     (if is_digit18 c then count_squares cs (squareCount + parseInt_digit c)
      else count_squares cs (squareCount + 1))"

text \<open>The loop over the ranks, which returns \<^verbatim>\<open>false\<close> at the first bad rank.\<close>

fun check_ranks :: "string list \<Rightarrow> bool" where
  "check_ranks [] = True"
| "check_ranks (rank # ranks) =
     (if \<not> validFENChars rank then False
      else if count_squares rank 0 \<noteq> 8 then False
      else check_ranks ranks)"

text \<open>The patterns \<^verbatim>\<open>/^[KQkq]*$/\<close>, \<^verbatim>\<open>/^[a-h][36]$/\<close> and \<^verbatim>\<open>/^\d+$/\<close>.\<close>

definition castling_pattern :: "string \<Rightarrow> bool" where
  "castling_pattern s \<longleftrightarrow> list_all (\<lambda>c. c \<in> set ''KQkq'') s"

definition en_passant_pattern :: "string \<Rightarrow> bool" where
  "en_passant_pattern s \<longleftrightarrow>
     (case s of
        [f, r] \<Rightarrow> 97 \<le> (of_char f :: nat) \<and> (of_char f :: nat) \<le> 104
                  \<and> (r = CHR ''3'' \<or> r = CHR ''6'')
      | _ \<Rightarrow> False)"

definition digits_pattern :: "string \<Rightarrow> bool" where
  "digits_pattern s \<longleftrightarrow>
     s \<noteq> [] \<and> list_all (\<lambda>c. 48 \<le> (of_char c :: nat) \<and> (of_char c :: nat) \<le> 57) s"

definition validateFENFormat :: "string \<Rightarrow> bool" where
  "validateFENFormat fenString =
     (if fenString = [] then False
      else
        let parts = split_ws (trim fenString)
        in if length parts \<noteq> 6 then False
           else
             let ranks = split_on CHR ''/'' (parts ! 0)
             in if length ranks \<noteq> 8 then False
                else if \<not> check_ranks ranks then False
                else if parts ! 1 \<noteq> ''w'' \<and> parts ! 1 \<noteq> ''b'' then False
                else if parts ! 2 \<noteq> ''-'' \<and> \<not> castling_pattern (parts ! 2) then False
                else if parts ! 3 \<noteq> ''-'' \<and> \<not> en_passant_pattern (parts ! 3) then False
                else if \<not> digits_pattern (parts ! 4) \<or> \<not> digits_pattern (parts ! 5) then False
                else True)"


section \<open>The transforms\<close>

text \<open>
  The loop of \<^verbatim>\<open>swapPieceColors\<close> over one rank: digits 1 to 8 are kept, an
  upper-case letter is lowered, a lower-case letter is raised, and a character of no
  branch is not appended.
\<close>

fun swap_rank :: "string \<Rightarrow> string" where
  "swap_rank [] = []"
| "swap_rank (c # cs) =
     (if is_digit18 c then c # swap_rank cs
      else if is_upper c then toLowerCase c # swap_rank cs
      else if is_lower c then toUpperCase c # swap_rank cs
      else swap_rank cs)"

text \<open>
  The castling block, the same in \<^verbatim>\<open>swapPieceColors\<close> and in
  \<^verbatim>\<open>rotateFEN180\<close>: the result is assembled in the fixed order k, q, K, Q.
\<close>

definition flip_castling :: "string \<Rightarrow> string" where
  "flip_castling castling =
     (if castling = ''-'' then ''-''
      else
        let flipped =
              (if CHR ''K'' \<in> set castling then ''k'' else [])
              @ (if CHR ''Q'' \<in> set castling then ''q'' else [])
              @ (if CHR ''k'' \<in> set castling then ''K'' else [])
              @ (if CHR ''q'' \<in> set castling then ''Q'' else [])
        in if flipped = [] then ''-'' else flipped)"

definition swapPieceColors :: "string \<Rightarrow> string" where
  "swapPieceColors fenString =
     (if fenString = [] then fenString
      else
        let fenParts = split_on CHR '' '' fenString
        in if length fenParts < 6 then fenString
           else
             let boardPart = or_default (nth_opt fenParts 0) (DEFAULT_FEN_PARTS ! 0);
                 turn = or_default (nth_opt fenParts 1) (DEFAULT_FEN_PARTS ! 1);
                 castling = or_default (nth_opt fenParts 2) (DEFAULT_FEN_PARTS ! 2);
                 enPassant = or_default (nth_opt fenParts 3) (DEFAULT_FEN_PARTS ! 3);
                 halfmove = or_default (nth_opt fenParts 4) (DEFAULT_FEN_PARTS ! 4);
                 fullmove = or_default (nth_opt fenParts 5) (DEFAULT_FEN_PARTS ! 5);
                 ranks = split_on CHR ''/'' boardPart
             in if length ranks \<noteq> 8 then fenString
                else
                  let swappedRanks = map swap_rank ranks;
                      swappedCastling = flip_castling castling;
                      swappedBoard = join_with ''/'' swappedRanks
                  in fen_template swappedBoard turn swappedCastling enPassant halfmove fullmove)"

text \<open>
  The en-passant square under the rotation: a file a to h and a rank digit 1 to 8 are
  mirrored, anything else becomes \<^verbatim>\<open>-\<close>. \<^verbatim>\<open>parseInt\<close> of the second
  character is a number from 1 to 8 exactly when that character is a digit 1 to 8.
\<close>

definition rotate_en_passant :: "string \<Rightarrow> string" where
  "rotate_en_passant enPassant =
     (if enPassant \<noteq> [] \<and> enPassant \<noteq> ''-'' \<and> length enPassant \<ge> 2 then
        let file = enPassant ! 0; rankChar = enPassant ! 1
        in if 97 \<le> (of_char file :: nat) \<and> (of_char file :: nat) \<le> 104 \<and> is_digit18 rankChar then
             char_of (97 + (7 - ((of_char file :: nat) - 97))) # show_nat (9 - parseInt_digit rankChar)
           else ''-''
      else ''-'')"

definition rotateFEN180 :: "string \<Rightarrow> string" where
  "rotateFEN180 fenString =
     (if fenString = [] then fenString
      else
        let fenParts = split_on CHR '' '' fenString
        in if length fenParts < 6 then fenString
           else
             let boardPart = or_default (nth_opt fenParts 0) (DEFAULT_FEN_PARTS ! 0);
                 turn = or_default (nth_opt fenParts 1) (DEFAULT_FEN_PARTS ! 1);
                 castling = or_default (nth_opt fenParts 2) (DEFAULT_FEN_PARTS ! 2);
                 enPassant = or_default (nth_opt fenParts 3) (DEFAULT_FEN_PARTS ! 3);
                 halfmove = or_default (nth_opt fenParts 4) (DEFAULT_FEN_PARTS ! 4);
                 fullmove = or_default (nth_opt fenParts 5) (DEFAULT_FEN_PARTS ! 5);
                 ranks = split_on CHR ''/'' boardPart
             in if length ranks \<noteq> 8 then fenString
                else
                  let reversedRanks = rev ranks;
                      rotatedRanks = map rev reversedRanks;
                      rotatedCastling = flip_castling castling;
                      rotatedEnPassant = rotate_en_passant enPassant;
                      rotatedBoard = join_with ''/'' rotatedRanks
                  in fen_template rotatedBoard turn rotatedCastling rotatedEnPassant halfmove fullmove)"

definition handleFlipBoard :: "chess_lib \<Rightarrow> app_state \<Rightarrow> app_state" where
  "handleFlipBoard chess s =
     (if fen s = [] then s
      else
        let flippedFen = rotateFEN180 (fen s)
        in if \<not> validateFENFormat flippedFen then
             s\<lparr>processingError := Some ''Invalid FEN format after flip.''\<rparr>
           else
             let s1 = s\<lparr>fen := flippedFen, isBoardFlipped := False\<rparr>
             in (case chess flippedFen of None \<Rightarrow> s1 | Some g \<Rightarrow> s1\<lparr>game := g\<rparr>))"

definition handleSwapColors :: "chess_lib \<Rightarrow> app_state \<Rightarrow> app_state" where
  "handleSwapColors chess s =
     (let currentFenParts = split_on CHR '' '' (fen s);
          preservedTurn = or_default (nth_opt currentFenParts 1) (DEFAULT_FEN_PARTS ! 1);
          swappedFen = swapPieceColors (fen s);
          swappedFenParts = split_on CHR '' '' swappedFen;
          fenWithPreservedTurn =
            fen_template (interpolate (nth_opt swappedFenParts 0)) preservedTurn
              (interpolate (nth_opt swappedFenParts 2)) (interpolate (nth_opt swappedFenParts 3))
              (interpolate (nth_opt swappedFenParts 4)) (interpolate (nth_opt swappedFenParts 5));
          s1 = s\<lparr>fen := fenWithPreservedTurn\<rparr>
      in case chess fenWithPreservedTurn of
           None \<Rightarrow> s1
         | Some g \<Rightarrow>
             let gameFen = split_on CHR '' '' g
             in if nth_opt gameFen 1 \<noteq> Some preservedTurn then
                  let correctedFen = join_with '' '' (set_turn_part gameFen preservedTurn)
                  in (case chess correctedFen of
                        Some cg \<Rightarrow> s1\<lparr>fen := correctedFen, game := cg\<rparr>
                      | None \<Rightarrow> s1)
                else s1\<lparr>game := g\<rparr>)"

text \<open>
  Modelled from the spec: the text that \<^verbatim>\<open>new Chess().fen()\<close> of the rules library
  returns, the standard initial position. The library is not part of the repository.
\<close>

definition initial_fen :: string where
  "initial_fen = ''rnbqkbnr/pppppppp/8/8/8/8/PPPPPPPP/RNBQKBNR w KQkq - 0 1''"

definition handleReset :: "app_state \<Rightarrow> app_state" where
  "handleReset s = s\<lparr>game := initial_fen, fen := initial_fen\<rparr>"


section \<open>The cooldown between detection requests\<close>









section \<open>JavaScript numbers\<close>

text \<open>
  A number is \<^verbatim>\<open>NaN\<close>, an infinity or a finite value. The result of an arithmetic
  operation on finite values is the exact result rounded by \<open>rnd\<close>, which is a parameter
  of the model: it stands for the rounding of IEEE 754 doubles, overflow to an infinity
  included, and every statement below holds for every \<open>rnd\<close>. The sign of a zero is not
  modelled; the program divides by the constants 2 and 8 and by a square size that it has
  checked to be positive and finite.
\<close>

datatype jsnum = NaN | NegInfinity | Finite real | Infinity

type_synonym rounding = "real \<Rightarrow> jsnum"

fun jle :: "jsnum \<Rightarrow> jsnum \<Rightarrow> bool" where
  "jle NaN _ = False"
| "jle _ NaN = False"
| "jle NegInfinity _ = True"
| "jle _ Infinity = True"
| "jle (Finite a) (Finite b) = (a \<le> b)"
| "jle _ _ = False"

fun jlt :: "jsnum \<Rightarrow> jsnum \<Rightarrow> bool" where
  "jlt NaN _ = False"
| "jlt _ NaN = False"
| "jlt Infinity _ = False"
| "jlt _ NegInfinity = False"
| "jlt (Finite a) (Finite b) = (a < b)"
| "jlt _ _ = True"

definition jgt :: "jsnum \<Rightarrow> jsnum \<Rightarrow> bool" where
  "jgt a b = jlt b a"

definition Math_min :: "jsnum \<Rightarrow> jsnum \<Rightarrow> jsnum" where
  "Math_min a b = (if a = NaN \<or> b = NaN then NaN else if jle a b then a else b)"

definition Math_max :: "jsnum \<Rightarrow> jsnum \<Rightarrow> jsnum" where
  "Math_max a b = (if a = NaN \<or> b = NaN then NaN else if jle a b then b else a)"

fun jneg :: "jsnum \<Rightarrow> jsnum" where
  "jneg NaN = NaN"
| "jneg NegInfinity = Infinity"
| "jneg (Finite a) = Finite (- a)"
| "jneg Infinity = NegInfinity"

fun jadd :: "rounding \<Rightarrow> jsnum \<Rightarrow> jsnum \<Rightarrow> jsnum" where
  "jadd rnd NaN _ = NaN"
| "jadd rnd _ NaN = NaN"
| "jadd rnd (Finite a) (Finite b) = rnd (a + b)"
| "jadd rnd Infinity NegInfinity = NaN"
| "jadd rnd NegInfinity Infinity = NaN"
| "jadd rnd Infinity _ = Infinity"
| "jadd rnd _ Infinity = Infinity"
| "jadd rnd NegInfinity _ = NegInfinity"
| "jadd rnd _ NegInfinity = NegInfinity"

definition jsub :: "rounding \<Rightarrow> jsnum \<Rightarrow> jsnum \<Rightarrow> jsnum" where
  "jsub rnd a b = jadd rnd a (jneg b)"

fun jmul :: "rounding \<Rightarrow> jsnum \<Rightarrow> jsnum \<Rightarrow> jsnum" where
  "jmul rnd NaN _ = NaN"
| "jmul rnd _ NaN = NaN"
| "jmul rnd (Finite a) (Finite b) = rnd (a * b)"
| "jmul rnd (Finite a) b = (if a = 0 then NaN else if a > 0 then b else jneg b)"
| "jmul rnd a (Finite b) = (if b = 0 then NaN else if b > 0 then a else jneg a)"
| "jmul rnd a b = (if a = b then Infinity else NegInfinity)"

text \<open>Division by a positive finite value.\<close>

fun jdiv_pos :: "rounding \<Rightarrow> jsnum \<Rightarrow> real \<Rightarrow> jsnum" where
  "jdiv_pos rnd (Finite a) d = rnd (a / d)"
| "jdiv_pos rnd a d = a"

fun Math_floor :: "jsnum \<Rightarrow> jsnum" where
  "Math_floor (Finite a) = Finite (of_int \<lfloor>a\<rfloor>)"
| "Math_floor a = a"

fun isFinite :: "jsnum \<Rightarrow> bool" where
  "isFinite (Finite a) = True"
| "isFinite _ = False"

text \<open>An optional number used as a condition: absent, zero and \<^verbatim>\<open>NaN\<close> are false.\<close>

fun truthy :: "jsnum option \<Rightarrow> bool" where
  "truthy None = False"
| "truthy (Some NaN) = False"
| "truthy (Some (Finite a)) = (a \<noteq> 0)"
| "truthy (Some _) = True"

text \<open>
  A number used as an array index of an array of eight elements: an integer from 0 to 7
  selects an element, any other number gives \<^verbatim>\<open>undefined\<close>.
\<close>

fun index8 :: "jsnum \<Rightarrow> nat option" where
  "index8 (Finite a) = (if a = of_int \<lfloor>a\<rfloor> \<and> 0 \<le> a \<and> a \<le> 7 then Some (nat \<lfloor>a\<rfloor>) else None)"
| "index8 _ = None"


section \<open>The detector grid mapper\<close>

record detection =
  det_x :: jsnum
  det_y :: jsnum
  det_width :: jsnum
  det_height :: jsnum
  det_class :: string
  det_confidence :: jsnum

record GridSquare =
  gs_row :: nat
  gs_col :: nat
  gs_piece :: "string option"
  gs_confidence :: jsnum

type_synonym grid = "GridSquare list list"

datatype js_error = TypeError

text \<open>The table \<^verbatim>\<open>pieceClassToFEN\<close>, in its order.\<close>

definition pieceClassToFEN :: "(string \<times> string) list" where
  "pieceClassToFEN =
     [(''white-pawn'', ''P''), (''white-rook'', ''R''), (''white-knight'', ''N''),
      (''white-bishop'', ''B''), (''white-queen'', ''Q''), (''white-king'', ''K''),
      (''black-pawn'', ''p''), (''black-rook'', ''r''), (''black-knight'', ''n''),
      (''black-bishop'', ''b''), (''black-queen'', ''q''), (''black-king'', ''k''),
      (''w-pawn'', ''P''), (''w-rook'', ''R''), (''w-knight'', ''N''),
      (''w-bishop'', ''B''), (''w-queen'', ''Q''), (''w-king'', ''K''),
      (''b-pawn'', ''p''), (''b-rook'', ''r''), (''b-knight'', ''n''),
      (''b-bishop'', ''b''), (''b-queen'', ''q''), (''b-king'', ''k'')]"

text \<open>
  \<^verbatim>\<open>pieceClassToFEN[det.class.toLowerCase()]\<close> reads a property of a plain object, so
  besides the 24 keys of the table it finds the properties every object inherits. Two of
  their names are unchanged by \<^verbatim>\<open>toLowerCase\<close> and can therefore be asked for:
  \<^verbatim>\<open>constructor\<close>, a function, and \<^verbatim>\<open>__proto__\<close>, an object. Both values
  count as true in \<^verbatim>\<open>if (fenPiece)\<close> and are stored in the grid. A stored value is
  used in two ways only, as a condition and appended to the board text, so the model keeps
  the text that appending it gives.
\<close>

definition inherited_properties :: "(string \<times> string) list" where
  "inherited_properties =
     [(''constructor'', ''function Object() { [native code] }''),
      (''__proto__'', ''[object Object]'')]"

definition fen_piece_of :: "detection \<Rightarrow> string option" where
  "fen_piece_of det =
     (let key = map toLowerCase (det_class det)
      in case map_of pieceClassToFEN key of
           Some fenPiece \<Rightarrow> Some fenPiece
         | None \<Rightarrow> map_of inherited_properties key)"

definition initial_grid :: grid where
  "initial_grid =
     replicate 8 (replicate 8 \<lparr>gs_row = 0, gs_col = 0, gs_piece = None, gs_confidence = Finite 0\<rparr>)"

text \<open>
  The bounds of the board: the left and top edge and the width and height. Without both
  image dimensions they are the rectangle around all detection boxes, computed by the
  first \<^verbatim>\<open>forEach\<close>; with them, the image less a margin of 5 percent on each side.
\<close>

record bounds =
  minX :: jsnum
  minY :: jsnum
  maxX :: jsnum
  maxY :: jsnum

definition extend_bounds :: "rounding \<Rightarrow> bounds \<Rightarrow> detection \<Rightarrow> bounds" where
  "extend_bounds rnd b det =
     (let centerX = det_x det; centerY = det_y det;
          halfWidth = jdiv_pos rnd (det_width det) 2;
          halfHeight = jdiv_pos rnd (det_height det) 2
      in \<lparr>minX = Math_min (minX b) (jsub rnd centerX halfWidth),
          minY = Math_min (minY b) (jsub rnd centerY halfHeight),
          maxX = Math_max (maxX b) (jadd rnd centerX halfWidth),
          maxY = Math_max (maxY b) (jadd rnd centerY halfHeight)\<rparr>)"

definition initial_bounds :: bounds where
  "initial_bounds = \<lparr>minX = Infinity, minY = Infinity, maxX = NegInfinity, maxY = NegInfinity\<rparr>"

text \<open>The four values the mapping uses: \<^verbatim>\<open>minX\<close>, \<^verbatim>\<open>minY\<close>, \<^verbatim>\<open>boardWidth\<close>, \<^verbatim>\<open>boardHeight\<close>.\<close>

definition board_bounds ::
    "rounding \<Rightarrow> detection list \<Rightarrow> jsnum option \<Rightarrow> jsnum option \<Rightarrow> jsnum \<times> jsnum \<times> jsnum \<times> jsnum" where
  "board_bounds rnd detections imageWidth imageHeight =
     (if \<not> truthy imageWidth \<or> \<not> truthy imageHeight then
        let b = foldl (extend_bounds rnd) initial_bounds detections
        in (minX b, minY b, jsub rnd (maxX b) (minX b), jsub rnd (maxY b) (minY b))
      else
        let margin = rnd (5 / 100);
            w = the imageWidth; h = the imageHeight;
            shrink = jsub rnd (Finite 1) (jmul rnd (Finite 2) margin)
        in (jmul rnd w margin, jmul rnd h margin, jmul rnd w shrink, jmul rnd h shrink))"

text \<open>The clamped row or column of a centre coordinate.\<close>

definition clamped_index :: "rounding \<Rightarrow> jsnum \<Rightarrow> jsnum \<Rightarrow> real \<Rightarrow> jsnum" where
  "clamped_index rnd center lo squareSize =
     Math_max (Finite 0) (Math_min (Finite 7) (Math_floor (jdiv_pos rnd (jsub rnd center lo) squareSize)))"

text \<open>
  The body of the second \<^verbatim>\<open>forEach\<close>, for a detection whose clamped row and column
  are given. A class outside the table is skipped before the grid is read. Reading
  \<^verbatim>\<open>grid[clampedRow][clampedCol].piece\<close> throws a \<^verbatim>\<open>TypeError\<close> when an index
  is \<^verbatim>\<open>NaN\<close>.
\<close>

definition place_detection :: "(detection \<Rightarrow> jsnum \<times> jsnum) \<Rightarrow> grid \<Rightarrow> detection \<Rightarrow> js_error + grid" where
  "place_detection cell g det =
     (case fen_piece_of det of
        None \<Rightarrow> Inr g
      | Some fenPiece \<Rightarrow>
          (case (index8 (fst (cell det)), index8 (snd (cell det))) of
             (Some r, Some c) \<Rightarrow>
               let sq = g ! r ! c
               in if gs_piece sq = None \<or> jgt (det_confidence det) (gs_confidence sq) then
                    Inr (g[r := (g ! r)[c := \<lparr>gs_row = r, gs_col = c, gs_piece = Some fenPiece,
                                               gs_confidence = det_confidence det\<rparr>]])
                  else Inr g
           | _ \<Rightarrow> Inl TypeError))"

fun place_all :: "(detection \<Rightarrow> jsnum \<times> jsnum) \<Rightarrow> grid \<Rightarrow> detection list \<Rightarrow> js_error + grid" where
  "place_all cell g [] = Inr g"
| "place_all cell g (det # dets) =
     (case place_detection cell g det of
        Inl e \<Rightarrow> Inl e
      | Inr g' \<Rightarrow> place_all cell g' dets)"

text \<open>The loop that writes one row of the grid.\<close>

fun grid_rank :: "GridSquare list \<Rightarrow> nat \<Rightarrow> string" where
  "grid_rank [] emptyCount = (if emptyCount > 0 then show_nat emptyCount else [])"
| "grid_rank (sq # sqs) emptyCount =
     (case gs_piece sq of
        Some p \<Rightarrow> (if emptyCount > 0 then show_nat emptyCount else []) @ p @ grid_rank sqs 0
      | None \<Rightarrow> grid_rank sqs (emptyCount + 1))"

definition grid_fen :: "grid \<Rightarrow> string" where
  "grid_fen g = join_with ''/'' (map (\<lambda>row. grid_rank row 0) g) @ '' w - - 0 1''"

definition empty_board_fen :: string where
  "empty_board_fen = ''8/8/8/8/8/8/8/8 w - - 0 1''"

text \<open>
  The grid after the second \<^verbatim>\<open>forEach\<close>; \<open>None\<close> when one of the two guards
  returns the empty board first.
\<close>

definition cell_of :: "rounding \<Rightarrow> jsnum \<Rightarrow> jsnum \<Rightarrow> real \<Rightarrow> real \<Rightarrow> detection \<Rightarrow> jsnum \<times> jsnum" where
  "cell_of rnd mnX mnY squareWidth squareHeight det =
     (clamped_index rnd (det_y det) mnY squareHeight, clamped_index rnd (det_x det) mnX squareWidth)"

definition detections_grid ::
    "rounding \<Rightarrow> detection list \<Rightarrow> jsnum option \<Rightarrow> jsnum option \<Rightarrow> js_error + grid option" where
  "detections_grid rnd detections imageWidth imageHeight =
     (case board_bounds rnd detections imageWidth imageHeight of
        (mnX, mnY, boardWidth, boardHeight) \<Rightarrow>
          if jle boardWidth (Finite 0) \<or> jle boardHeight (Finite 0) then Inr None
          else
            let squareWidth = jdiv_pos rnd boardWidth 8;
                squareHeight = jdiv_pos rnd boardHeight 8
            in if jle squareWidth (Finite 0) \<or> jle squareHeight (Finite 0)
                  \<or> \<not> isFinite squareWidth \<or> \<not> isFinite squareHeight then Inr None
               else
                 (case (squareWidth, squareHeight) of
                    (Finite sw, Finite sh) \<Rightarrow>
                      (case place_all (cell_of rnd mnX mnY sw sh) initial_grid detections of
                         Inl e \<Rightarrow> Inl e
                       | Inr g \<Rightarrow> Inr (Some g))
                  | _ \<Rightarrow> Inr None))"

definition detectionsToFEN ::
    "rounding \<Rightarrow> detection list \<Rightarrow> jsnum option \<Rightarrow> jsnum option \<Rightarrow> js_error + string" where
  "detectionsToFEN rnd detections imageWidth imageHeight =
     (case detections_grid rnd detections imageWidth imageHeight of
        Inl e \<Rightarrow> Inl e
      | Inr None \<Rightarrow> Inr empty_board_fen
      | Inr (Some g) \<Rightarrow> Inr (grid_fen g))"


section \<open>Notions used in the statements\<close>

text \<open>The \<open>i\<close>-th field of a FEN, as the handlers read it: part \<open>i\<close> of the split at single spaces.\<close>

definition fen_field :: "nat \<Rightarrow> string \<Rightarrow> string option" where
  "fen_field i f = nth_opt (split_on CHR '' '' f) i"


definition board_shape :: "board \<Rightarrow> bool" where
  "board_shape b \<longleftrightarrow> length b = 8 \<and> list_all (\<lambda>row. length row = 8) b"

text \<open>
  A text of six non-empty fields with one space between them, as every edit builds it.
\<close>

definition six_fields :: "string \<Rightarrow> bool" where
  "six_fields f \<longleftrightarrow>
     length (split_on CHR '' '' f) = 6 \<and> list_all (\<lambda>p. p \<noteq> []) (split_on CHR '' '' f)"

text \<open>
  The rules library chess.js is outside the repository, and what stays on display after
  an edit depends on its answer. The statements about the text on display are made for
  a library of which the following is true: whenever it answers a text of six fields
  with another turn than the text has, the answer has six parts and its other five
  fields are those of the text. Nothing is asked of a library that answers with the turn
  it was given, whatever else it changes, nor of a library that throws.
\<close>

definition turn_change_only :: "chess_lib \<Rightarrow> bool" where
  "turn_change_only chess \<longleftrightarrow>
     (\<forall>f g. six_fields f \<and> chess f = Some g \<and> fen_field 1 g \<noteq> fen_field 1 f \<longrightarrow>
        length (split_on CHR '' '' g) = 6
        \<and> fen_field 0 g = fen_field 0 f \<and> fen_field 2 g = fen_field 2 f
        \<and> fen_field 3 g = fen_field 3 f \<and> fen_field 4 g = fen_field 4 f
        \<and> fen_field 5 g = fen_field 5 f)"

text \<open>
  Two stand-ins for the library, used to run the handlers through the branch that puts
  the turn back. The first answers a text of six parts with the same text and the other
  side to move. The second accepts every text and answers with its board field, black to
  move, no castling rights, no en-passant square and fresh counters.
\<close>

definition turn_flipping_library :: chess_lib where
  "turn_flipping_library f =
     (let parts = split_on CHR '' '' f
      in if length parts = 6 then
           Some (join_with '' '' (set_turn_part parts (if parts ! 1 = ''w'' then ''b'' else ''w'')))
         else None)"

definition recomputing_library :: chess_lib where
  "recomputing_library f =
     Some (fen_template (interpolate (fen_field 0 f)) ''b'' ''-'' ''-'' ''0'' ''1'')"



text \<open>
  The user actions on the position. Dragging a palette piece sets \<^verbatim>\<open>draggedPiece\<close>
  (\<^verbatim>\<open>handlePieceDragStart\<close>) and its drop on the board arrives without a source
  square; a drop of a board piece arrives with one.
\<close>

datatype edit = Place piece string | Remove string | Move string string | Rotate180 | SwapColors

fun apply_edit :: "chess_lib \<Rightarrow> edit \<Rightarrow> app_state \<Rightarrow> app_state" where
  "apply_edit chess (Place p sq) s = snd (enhancedOnDrop chess None sq (s\<lparr>draggedPiece := Some p\<rparr>))"
| "apply_edit chess (Remove sq) s = handleSquareRightClick chess sq s"
| "apply_edit chess (Move src tgt) s = snd (enhancedOnDrop chess (Some src) tgt s)"
| "apply_edit chess Rotate180 s = handleFlipBoard chess s"
| "apply_edit chess SwapColors s = handleSwapColors chess s"

fun apply_edits :: "chess_lib \<Rightarrow> edit list \<Rightarrow> app_state \<Rightarrow> app_state" where
  "apply_edits chess [] s = s"
| "apply_edits chess (e # es) s = apply_edits chess es (apply_edit chess e s)"

text \<open>The exchange of upper and lower case on one character, and of the colour of a piece.\<close>

definition swap_case :: "char \<Rightarrow> char" where
  "swap_case c = (if is_upper c then toLowerCase c else if is_lower c then toUpperCase c else c)"

fun other_color :: "color \<Rightarrow> color" where
  "other_color White = Black"
| "other_color Black = White"

definition recolor :: "piece option \<Rightarrow> piece option" where
  "recolor sq = map_option (\<lambda>p. p\<lparr>pcolor := other_color (pcolor p)\<rparr>) sq"

text \<open>The characters a rank of the board field is written with, and the rank separator.\<close>

definition board_text :: "string \<Rightarrow> bool" where
  "board_text b \<longleftrightarrow> list_all (\<lambda>c. c = CHR ''/'' \<or> is_digit18 c \<or> is_upper c \<or> is_lower c) b"

text \<open>A castling field: \<^verbatim>\<open>-\<close> or a non-empty word over K, Q, k, q.\<close>

definition castling_text :: "string \<Rightarrow> bool" where
  "castling_text c \<longleftrightarrow> c = ''-'' \<or> (c \<noteq> [] \<and> list_all (\<lambda>x. x \<in> set ''KQkq'') c)"

text \<open>An en-passant field: \<^verbatim>\<open>-\<close> or a square name.\<close>

definition en_passant_text :: "string \<Rightarrow> bool" where
  "en_passant_text e \<longleftrightarrow> e = ''-'' \<or> valid_square e"

text \<open>A state that holds the given text and nothing else.\<close>

definition text_state :: "string \<Rightarrow> app_state" where
  "text_state f = \<lparr>fen = f, game = [], draggedPiece = None, isBoardFlipped = False,
     processingError = None\<rparr>"

section \<open>Splitting and joining\<close>

lemma split_on_nonempty: "split_on sep s \<noteq> []"
  by (induction s) (auto simp: Let_def)

lemma split_on_no_sep: "p \<in> set (split_on sep s) \<Longrightarrow> sep \<notin> set p"
proof (induction s arbitrary: p)
  case Nil
  then show ?case by simp
next
  case (Cons c cs)
  obtain q qs where q: "split_on sep cs = q # qs"
    using split_on_nonempty[of sep cs] by (cases "split_on sep cs") auto
  show ?case
  proof (cases "c = sep")
    case True
    with Cons show ?thesis by (auto simp: Let_def)
  next
    case False
    with Cons.prems q have "p = c # q \<or> p \<in> set qs" by (auto simp: Let_def)
    with Cons.IH q False show ?thesis by auto
  qed
qed

lemma split_on_subset: "p \<in> set (split_on sep s) \<Longrightarrow> set p \<subseteq> set s"
proof (induction s arbitrary: p)
  case Nil
  then show ?case by simp
next
  case (Cons c cs)
  obtain q qs where q: "split_on sep cs = q # qs"
    using split_on_nonempty[of sep cs] by (cases "split_on sep cs") auto
  show ?case
  proof (cases "c = sep")
    case True
    with Cons show ?thesis by (auto simp: Let_def)
  next
    case False
    with Cons.prems q have "p = c # q \<or> p \<in> set qs" by (auto simp: Let_def)
    with Cons.IH[of q] Cons.IH[of p] q show ?thesis by auto
  qed
qed

lemma split_on_single: "sep \<notin> set a \<Longrightarrow> split_on sep a = [a]"
  by (induction a) (auto simp: Let_def)

lemma split_on_append: "sep \<notin> set a \<Longrightarrow> split_on sep (a @ sep # b) = a # split_on sep b"
  by (induction a) (auto simp: Let_def)

lemma join_split: "join_with [sep] (split_on sep s) = s"
proof (induction s)
  case Nil
  then show ?case by simp
next
  case (Cons c cs)
  obtain q qs where q: "split_on sep cs = q # qs"
    using split_on_nonempty[of sep cs] by (cases "split_on sep cs") auto
  with Cons show ?case by (cases qs) (auto simp: Let_def)
qed

lemma split_join:
  "ps \<noteq> [] \<Longrightarrow> \<forall>p\<in>set ps. sep \<notin> set p \<Longrightarrow> split_on sep (join_with [sep] ps) = ps"
proof (induction ps)
  case Nil
  then show ?case by simp
next
  case (Cons p ps)
  show ?case
  proof (cases ps)
    case Nil
    with Cons.prems show ?thesis by (simp add: split_on_single)
  next
    case (Cons q qs)
    with Cons.prems Cons.IH show ?thesis by (simp add: split_on_append)
  qed
qed

lemma set_join_with: "set (join_with sep ps) \<subseteq> set sep \<union> (\<Union>p\<in>set ps. set p)"
  by (induction sep ps rule: join_with.induct) auto

lemma split_template:
  assumes "CHR '' '' \<notin> set a" "CHR '' '' \<notin> set b" "CHR '' '' \<notin> set c"
    "CHR '' '' \<notin> set d" "CHR '' '' \<notin> set e" "CHR '' '' \<notin> set f"
  shows "split_on CHR '' '' (fen_template a b c d e f) = [a, b, c, d, e, f]"
  using assms by (simp add: fen_template_def split_on_append split_on_single)

lemma length_join_split: "length (split_on sep s) = Suc (length (filter (\<lambda>c. c = sep) s))"
proof (induction s)
  case Nil
  then show ?case by simp
next
  case (Cons c cs)
  obtain q qs where q: "split_on sep cs = q # qs"
    using split_on_nonempty[of sep cs] by (cases "split_on sep cs") auto
  with Cons show ?case by (auto simp: Let_def)
qed

section \<open>The board codec\<close>

lemma toUpperCase_pieces:
  "toUpperCase CHR ''p'' = CHR ''P''" "toUpperCase CHR ''r'' = CHR ''R''"
  "toUpperCase CHR ''n'' = CHR ''N''" "toUpperCase CHR ''b'' = CHR ''B''"
  "toUpperCase CHR ''q'' = CHR ''Q''" "toUpperCase CHR ''k'' = CHR ''K''"
  by code_simp+

lemma toLowerCase_pieces:
  "toLowerCase CHR ''P'' = CHR ''p''" "toLowerCase CHR ''R'' = CHR ''r''"
  "toLowerCase CHR ''N'' = CHR ''n''" "toLowerCase CHR ''B'' = CHR ''b''"
  "toLowerCase CHR ''Q'' = CHR ''q''" "toLowerCase CHR ''K'' = CHR ''k''"
  by code_simp+

lemma toLowerCase_lower:
  "toLowerCase CHR ''p'' = CHR ''p''" "toLowerCase CHR ''r'' = CHR ''r''"
  "toLowerCase CHR ''n'' = CHR ''n''" "toLowerCase CHR ''b'' = CHR ''b''"
  "toLowerCase CHR ''q'' = CHR ''q''" "toLowerCase CHR ''k'' = CHR ''k''"
  by (simp_all add: toLowerCase_def is_upper_def)

lemma piece_facts:
  "piece_of_char (piece_char p) = Some p \<and> \<not> is_digit18 (piece_char p)
      \<and> piece_char p \<noteq> CHR ''/'' \<and> piece_char p \<noteq> CHR '' ''"
proof (cases p)
  case (fields ty co)
  then show ?thesis
    by (cases ty; cases co)
       (simp_all add: piece_char_def piece_of_char_def toUpperCase_pieces toLowerCase_pieces
          toLowerCase_lower fenToPieceType_def is_digit18_def is_upper_def)
qed

lemma piece_of_char_piece_char [simp]: "piece_of_char (piece_char p) = Some p"
  and piece_char_not_digit [simp]: "\<not> is_digit18 (piece_char p)"
  and piece_char_not_slash [simp]: "piece_char p \<noteq> CHR ''/''"
  and piece_char_not_space [simp]: "piece_char p \<noteq> CHR '' ''"
  using piece_facts[of p] by simp_all

lemma show_nat_digit: "n < 10 \<Longrightarrow> show_nat n = [char_of (48 + n)]"
  by (subst show_nat.simps) simp

lemma show_nat_chars: "c \<in> set (show_nat n) \<Longrightarrow> 48 \<le> (of_char c :: nat) \<and> (of_char c :: nat) \<le> 57"
proof (induction n arbitrary: c rule: show_nat.induct)
  case (1 n)
  show ?case
  proof (cases "n < 10")
    case True
    with "1.prems" have "c = char_of (48 + n)" by (simp add: show_nat_digit)
    with True show ?thesis by simp
  next
    case False
    with "1.prems" have "c \<in> set (show_nat (n div 10)) \<or> c = char_of (48 + n mod 10)"
      by (subst (asm) show_nat.simps) auto
    then show ?thesis
    proof
      assume "c \<in> set (show_nat (n div 10))"
      with "1.IH" False show ?thesis by simp
    next
      assume "c = char_of (48 + n mod 10)"
      then have "(of_char c :: nat) = 48 + n mod 10" by simp
      then show ?thesis by simp
    qed
  qed
qed



lemma encode_rank_nonempty: "xs \<noteq> [] \<or> n > 0 \<Longrightarrow> encode_rank xs n \<noteq> []"
proof (induction xs arbitrary: n)
  case Nil
  then show ?case by (simp add: show_nat.simps[of n])
next
  case (Cons x xs)
  then show ?case by (cases x) auto
qed

lemma encode_rank_chars:
  "c \<in> set (encode_rank xs n) \<Longrightarrow> c \<noteq> CHR ''/'' \<and> c \<noteq> CHR '' ''"
proof (induction xs arbitrary: n)
  case Nil
  then show ?case using show_nat_chars[of c n] by (auto split: if_splits)
next
  case (Cons x xs)
  then show ?case using show_nat_chars[of c n] by (cases x) (auto split: if_splits)
qed

lemma parse_rank_length [simp]: "length (parse_rank s col row) = length row"
  by (induction s col row rule: parse_rank.induct) (auto simp: Let_def split: option.splits)




lemma encode_board_no_space: "CHR '' '' \<notin> set (encode_board b)"
  unfolding encode_board_def using set_join_with[of "''/''" "map (\<lambda>row. encode_rank row 0) b"] encode_rank_chars
  by auto

lemma parse_board_shape: "length ranks = 8 \<Longrightarrow> board_shape (parse_board ranks)"
  by (auto simp: board_shape_def parse_board_def empty_row_def list_all_iff)

section \<open>The turn under the board edits\<close>

lemma nth_opt_mem: "nth_opt xs i = Some x \<Longrightarrow> x \<in> set xs"
  by (auto simp: nth_opt_def split: if_splits)

lemma fen_field_no_space: "fen_field i f = Some t \<Longrightarrow> CHR '' '' \<notin> set t"
  unfolding fen_field_def using nth_opt_mem split_on_no_sep by metis

lemma or_default_no_space:
  assumes "\<forall>p\<in>set parts. CHR '' '' \<notin> set p" "CHR '' '' \<notin> set d"
  shows "CHR '' '' \<notin> set (or_default (nth_opt parts i) d)"
  using assms by (auto simp: or_default_def nth_opt_def split: option.splits)

lemma interpolate_no_space:
  assumes "\<forall>p\<in>set parts. CHR '' '' \<notin> set p"
  shows "CHR '' '' \<notin> set (interpolate (nth_opt parts i))"
  using assms by (auto simp: interpolate_def nth_opt_def split: option.splits)

lemma default_parts_nth [simp]:
  "DEFAULT_FEN_PARTS ! 0 = []" "DEFAULT_FEN_PARTS ! 1 = ''w''" "DEFAULT_FEN_PARTS ! Suc 0 = ''w''" "DEFAULT_FEN_PARTS ! 2 = ''-''"
  "DEFAULT_FEN_PARTS ! 3 = ''-''" "DEFAULT_FEN_PARTS ! 4 = ''0''" "DEFAULT_FEN_PARTS ! 5 = ''1''"
  by (simp_all add: DEFAULT_FEN_PARTS_def)

lemma split_rebuild_fen:
  assumes "\<forall>p\<in>set parts. CHR '' '' \<notin> set p"
  shows "split_on CHR '' '' (rebuild_fen b parts) =
    [encode_board b, or_default (nth_opt parts 1) ''w'', or_default (nth_opt parts 2) ''-'',
     or_default (nth_opt parts 3) ''-'', or_default (nth_opt parts 4) ''0'',
     or_default (nth_opt parts 5) ''1'']"
  unfolding rebuild_fen_def default_parts_nth
  by (rule split_template) (simp_all add: encode_board_no_space or_default_no_space assms)

lemma set_turn_part_nth: "nth_opt (set_turn_part ps t) (Suc 0) = Some t"
  by (cases "(ps, t)" rule: set_turn_part.cases) (simp_all add: nth_opt_def)

lemma set_turn_part_set: "set (set_turn_part ps t) \<subseteq> insert [] (insert t (set ps))"
  by (cases "(ps, t)" rule: set_turn_part.cases) auto

lemma set_turn_part_nonempty: "set_turn_part ps t \<noteq> []"
  by (cases "(ps, t)" rule: set_turn_part.cases) auto

lemma corrected_fen_turn:
  assumes "CHR '' '' \<notin> set t"
  shows "fen_field 1 (join_with '' '' (set_turn_part (split_on CHR '' '' g) t)) = Some t"
proof -
  have "\<forall>p\<in>set (set_turn_part (split_on CHR '' '' g) t). CHR '' '' \<notin> set p"
    using set_turn_part_set[of "split_on CHR '' '' g" t] assms split_on_no_sep[of _ "CHR '' ''" g]
    by auto
  then have "split_on CHR '' '' (join_with '' '' (set_turn_part (split_on CHR '' '' g) t))
      = set_turn_part (split_on CHR '' '' g) t"
    by (intro split_join set_turn_part_nonempty)
  then show ?thesis by (simp add: fen_field_def set_turn_part_nth)
qed

lemma sync_game_turn:
  assumes "CHR '' '' \<notin> set t" "fen_field 1 (fen s) = Some t"
  shows "fen_field 1 (fen (sync_game chess newFen t s)) = Some t"
  using assms corrected_fen_turn[OF assms(1)]
  by (auto simp: sync_game_def Let_def split: option.splits)

lemma sync_game_absent: "fen (sync_game (\<lambda>f. None) newFen t s) = fen s"
  by (simp add: sync_game_def)

lemma fen_field_rebuild:
  assumes "\<forall>p\<in>set parts. CHR '' '' \<notin> set p"
  shows "fen_field (Suc 0) (rebuild_fen b parts) = Some (or_default (nth_opt parts (Suc 0)) ''w'')"
  by (simp add: fen_field_def split_rebuild_fen[OF assms] nth_opt_def)

lemma commit_board_turn:
  assumes "\<forall>p\<in>set parts. CHR '' '' \<notin> set p"
  shows "fen_field 1 (fen (commit_board chess b parts s)) = Some (or_default (nth_opt parts 1) ''w'')"
  unfolding commit_board_def Let_def default_parts_nth
  by (rule sync_game_turn) (simp_all add: or_default_no_space assms fen_field_rebuild)

lemma editable_partsD:
  assumes "editable_parts f = Some (parts, b)"
  shows "parts = split_on CHR '' '' f" "6 \<le> length parts"
    "b = parse_board (split_on CHR ''/'' (parts ! 0))"
    "length (split_on CHR ''/'' (parts ! 0)) = 8" "board_shape b"
    "\<forall>p\<in>set parts. CHR '' '' \<notin> set p"
  using assms parse_board_shape split_on_no_sep[of _ "CHR '' ''" f]
  by (auto simp: editable_parts_def Let_def split: if_splits)

lemma or_default_turn:
  assumes "fen_field 1 f = Some t" "t \<noteq> []"
  shows "or_default (nth_opt (split_on CHR '' '' f) 1) d = t"
  using assms by (simp add: fen_field_def or_default_def)

lemma onDrop_turn:
  assumes "fen_field 1 (fen s) = Some t" "t \<noteq> []"
  shows "fen_field 1 (fen (snd (onDrop chess src tgt s))) = Some t"
proof (cases "editable_parts (fen s)")
  case None
  with assms show ?thesis by (simp add: onDrop_def)
next
  case (Some pb)
  obtain parts b where pb: "pb = (parts, b)" by (cases pb)
  note d = editable_partsD[OF Some[unfolded pb]]
  have "fen_field 1 (fen (commit_board chess b' parts s)) = Some t" for b'
    using commit_board_turn[OF d(6)] or_default_turn[OF assms] d(1) by simp
  with assms Some pb show ?thesis
    by (auto simp: onDrop_def Let_def split: option.splits)
qed

lemma handleSquareRightClick_turn:
  assumes "fen_field 1 (fen s) = Some t" "t \<noteq> []"
  shows "fen_field 1 (fen (handleSquareRightClick chess sq s)) = Some t"
proof (cases "editable_parts (fen s)")
  case None
  with assms show ?thesis by (simp add: handleSquareRightClick_def)
next
  case (Some pb)
  obtain parts b where pb: "pb = (parts, b)" by (cases pb)
  note d = editable_partsD[OF Some[unfolded pb]]
  have "fen_field 1 (fen (commit_board chess b' parts s)) = Some t" for b'
    using commit_board_turn[OF d(6)] or_default_turn[OF assms] d(1) by simp
  with assms Some pb show ?thesis
    by (auto simp: handleSquareRightClick_def Let_def split: option.splits)
qed

lemma commit_board_fen_indep:
  "fen (commit_board chess b parts (s\<lparr>draggedPiece := d\<rparr>)) = fen (commit_board chess b parts s)"
  by (auto simp: commit_board_def sync_game_def Let_def split: option.splits)

lemma enhancedOnDrop_turn:
  assumes "fen_field 1 (fen s) = Some t" "t \<noteq> []"
  shows "fen_field 1 (fen (snd (enhancedOnDrop chess src tgt s))) = Some t"
proof (cases "editable_parts (fen s)")
  case None
  with assms onDrop_turn[OF assms] show ?thesis
    by (auto simp: enhancedOnDrop_def Let_def split: option.splits)
next
  case (Some pb)
  obtain parts b where pb: "pb = (parts, b)" by (cases pb)
  note d = editable_partsD[OF Some[unfolded pb]]
  have "fen_field 1 (fen (commit_board chess b' parts s')) = Some t" for b' s'
    using commit_board_turn[OF d(6)] or_default_turn[OF assms] d(1) by simp
  with assms Some pb onDrop_turn[OF assms] show ?thesis
    by (auto simp: enhancedOnDrop_def Let_def split: option.splits)
qed

section \<open>The turn under the transforms\<close>

lemma flip_castling_chars: "set (flip_castling c) \<subseteq> set ''kqKQ-''"
  by (auto simp: flip_castling_def Let_def split: if_splits)

lemma flip_castling_no_space: "CHR '' '' \<notin> set (flip_castling c)"
  using flip_castling_chars[of c] by auto

lemma flip_castling_nonempty: "flip_castling c \<noteq> []"
  by (auto simp: flip_castling_def Let_def)

lemma not_space_code: "(of_char c :: nat) \<noteq> 32 \<Longrightarrow> c \<noteq> CHR '' ''"
  by auto

lemma mirror_file_no_space:
  assumes "97 \<le> (k::nat)" "k \<le> 104"
  shows "char_of (97 + (7 - (k - 97))) \<noteq> CHR '' ''"
proof (rule not_space_code)
  have "97 + (7 - (k - 97)) < (256::nat)" using assms by simp
  then have "(of_char (char_of (97 + (7 - (k - 97)))) :: nat) = 97 + (7 - (k - 97))"
    by simp
  then show "(of_char (char_of (97 + (7 - (k - 97)))) :: nat) \<noteq> 32" by simp
qed

lemma show_nat_no_space: "CHR '' '' \<notin> set (show_nat n)"
  using show_nat_chars[of "CHR '' ''" n] by auto

lemma rotate_en_passant_no_space: "CHR '' '' \<notin> set (rotate_en_passant e)"
proof (cases "e \<noteq> [] \<and> e \<noteq> ''-'' \<and> length e \<ge> 2 \<and> 97 \<le> (of_char (e ! 0) :: nat)
    \<and> (of_char (e ! 0) :: nat) \<le> 104 \<and> is_digit18 (e ! 1)")
  case True
  then have "rotate_en_passant e =
      char_of (97 + (7 - ((of_char (e ! 0) :: nat) - 97))) # show_nat (9 - parseInt_digit (e ! 1))"
    by (simp add: rotate_en_passant_def Let_def)
  with True show ?thesis
    using mirror_file_no_space[of "of_char (e ! 0)"] show_nat_no_space by auto
next
  case False
  then have "rotate_en_passant e = ''-''"
    by (auto simp: rotate_en_passant_def Let_def)
  then show ?thesis by simp
qed

lemma rotate_en_passant_nonempty: "rotate_en_passant e \<noteq> []"
  by (auto simp: rotate_en_passant_def Let_def)

lemma join_ranks_no_space:
  assumes "\<forall>r\<in>set rs. CHR '' '' \<notin> set r"
  shows "CHR '' '' \<notin> set (join_with ''/'' rs)"
  using set_join_with[of "''/''" rs] assms by auto

lemma split_ranks_no_space:
  assumes "CHR '' '' \<notin> set b" "r \<in> set (split_on CHR ''/'' b)"
  shows "CHR '' '' \<notin> set r"
  using assms split_on_subset[of r "CHR ''/''" b] by auto

text \<open>The six parts of a rotated FEN.\<close>

lemma split_rotateFEN180:
  assumes "f \<noteq> []" "parts = split_on CHR '' '' f" "6 \<le> length parts"
    "ranks = split_on CHR ''/'' (or_default (nth_opt parts 0) [])" "length ranks = 8"
  shows "split_on CHR '' '' (rotateFEN180 f) =
    [join_with ''/'' (map rev (rev ranks)), or_default (nth_opt parts 1) ''w'',
     flip_castling (or_default (nth_opt parts 2) ''-''),
     rotate_en_passant (or_default (nth_opt parts 3) ''-''),
     or_default (nth_opt parts 4) ''0'', or_default (nth_opt parts 5) ''1'']"
proof -
  have ns: "\<forall>p\<in>set parts. CHR '' '' \<notin> set p"
    using assms(2) split_on_no_sep by blast
  have b: "CHR '' '' \<notin> set (or_default (nth_opt parts 0) [])"
    using ns by (intro or_default_no_space) auto
  have "\<forall>r\<in>set (map rev (rev ranks)). CHR '' '' \<notin> set r"
    using split_ranks_no_space[OF b] assms(4) by auto
  then have rb: "CHR '' '' \<notin> set (join_with ''/'' (map rev (rev ranks)))"
    by (rule join_ranks_no_space)
  have "rotateFEN180 f = fen_template (join_with ''/'' (map rev (rev ranks)))
     (or_default (nth_opt parts 1) ''w'') (flip_castling (or_default (nth_opt parts 2) ''-''))
     (rotate_en_passant (or_default (nth_opt parts 3) ''-''))
     (or_default (nth_opt parts 4) ''0'') (or_default (nth_opt parts 5) ''1'')"
    using assms by (simp add: rotateFEN180_def Let_def)
  then show ?thesis
    using rb ns
    by (simp add: split_template or_default_no_space flip_castling_no_space rotate_en_passant_no_space)
qed

lemma rotateFEN180_cases:
  "rotateFEN180 f = f \<or>
   (f \<noteq> [] \<and> 6 \<le> length (split_on CHR '' '' f)
     \<and> length (split_on CHR ''/'' (or_default (nth_opt (split_on CHR '' '' f) 0) [])) = 8)"
  by (auto simp: rotateFEN180_def Let_def)

lemma rotateFEN180_turn:
  assumes "fen_field (Suc 0) f = Some t" "t \<noteq> []"
  shows "fen_field (Suc 0) (rotateFEN180 f) = Some t"
proof -
  from rotateFEN180_cases[of f] show ?thesis
  proof
    assume "rotateFEN180 f = f"
    with assms show ?thesis by simp
  next
    assume a: "f \<noteq> [] \<and> 6 \<le> length (split_on CHR '' '' f)
     \<and> length (split_on CHR ''/'' (or_default (nth_opt (split_on CHR '' '' f) 0) [])) = 8"
    have "or_default (nth_opt (split_on CHR '' '' f) (Suc 0)) ''w'' = t"
      using assms by (simp add: fen_field_def or_default_def)
    with split_rotateFEN180[OF _ refl _ refl, of f] a show ?thesis
      by (simp add: fen_field_def nth_opt_def)
  qed
qed

lemma handleFlipBoard_turn:
  assumes "fen_field (Suc 0) (fen s) = Some t" "t \<noteq> []"
  shows "fen_field (Suc 0) (fen (handleFlipBoard chess s)) = Some t"
  using assms rotateFEN180_turn[OF assms]
  by (auto simp: handleFlipBoard_def Let_def split: option.splits)

lemma handleSwapColors_turn:
  assumes "fen_field (Suc 0) (fen s) = Some t" "t \<noteq> []"
  shows "fen_field (Suc 0) (fen (handleSwapColors chess s)) = Some t"
proof -
  define sp where "sp = split_on CHR '' '' (swapPieceColors (fen s))"
  define fw where "fw = fen_template (interpolate (nth_opt sp 0)) t
              (interpolate (nth_opt sp 2)) (interpolate (nth_opt sp 3))
              (interpolate (nth_opt sp 4)) (interpolate (nth_opt sp 5))"
  have pt: "or_default (nth_opt (split_on CHR '' '' (fen s)) (Suc 0)) ''w'' = t"
    using assms by (simp add: fen_field_def or_default_def)
  have tn: "CHR '' '' \<notin> set t"
    using assms(1) by (rule fen_field_no_space)
  have ns: "\<forall>p\<in>set sp. CHR '' '' \<notin> set p"
    unfolding sp_def using split_on_no_sep by blast
  have "split_on CHR '' '' fw = [interpolate (nth_opt sp 0), t,
              interpolate (nth_opt sp 2), interpolate (nth_opt sp 3),
              interpolate (nth_opt sp 4), interpolate (nth_opt sp 5)]"
    unfolding fw_def by (rule split_template) (simp_all add: interpolate_no_space[OF ns] tn)
  then have fwt: "fen_field (Suc 0) fw = Some t"
    by (simp add: fen_field_def nth_opt_def)
  have "fen (handleSwapColors chess s) = fw
      \<or> (\<exists>g. fen (handleSwapColors chess s) = join_with '' '' (set_turn_part (split_on CHR '' '' g) t))"
    using pt by (auto simp: handleSwapColors_def Let_def sp_def fw_def split: option.splits)
  with fwt corrected_fen_turn[OF tn] show ?thesis by (auto simp: One_nat_def)
qed

lemma apply_edit_turn:
  assumes "fen_field (Suc 0) (fen s) = Some t" "t \<noteq> []"
  shows "fen_field (Suc 0) (fen (apply_edit chess e s)) = Some t"
proof (cases e)
  case (Place p sq)
  have "fen_field 1 (fen (s\<lparr>draggedPiece := Some p\<rparr>)) = Some t" using assms by simp
  from enhancedOnDrop_turn[OF this assms(2)] Place show ?thesis by simp
next
  case (Remove sq)
  with handleSquareRightClick_turn[of s t chess sq] assms show ?thesis by simp
next
  case (Move a b)
  with enhancedOnDrop_turn[of s t chess "Some a" b] assms show ?thesis by simp
next
  case Rotate180
  with handleFlipBoard_turn[OF assms] show ?thesis by simp
next
  case SwapColors
  with handleSwapColors_turn[OF assms] show ?thesis by simp
qed


section \<open>The text on display after an edit\<close>

lemma valid_square_bounds:
  assumes "valid_square sq"
  shows "square_row sq < 8" "square_col sq < 8"
proof -
  from assms obtain f r where sq: "sq = [f, r]"
    by (auto simp: valid_square_def split: list.splits)
  with assms have "97 \<le> (of_char f :: nat)" "(of_char f :: nat) \<le> 104" "is_digit18 r"
    by (simp_all add: valid_square_def)
  with sq show "square_row sq < 8" "square_col sq < 8"
    by (auto simp: square_row_def square_col_def is_digit18_def parseInt_digit_def)
qed

lemma board_shape_set:
  assumes "board_shape b"
  shows "board_shape (board_set b r c v)"
proof (cases "r < length b")
  case True
  with assms have "length ((b ! r)[c := v]) = 8"
    by (simp add: board_shape_def list_all_iff)
  moreover have "set (b[r := (b ! r)[c := v]]) \<subseteq> insert ((b ! r)[c := v]) (set b)"
    by (rule set_update_subset_insert)
  ultimately show ?thesis
    using assms by (auto simp: board_shape_def board_set_def list_all_iff)
next
  case False
  then have "b[r := (b ! r)[c := v]] = b" by (intro list_update_beyond) simp
  with assms show ?thesis by (simp add: board_set_def)
qed


lemma encode_board_nonempty:
  assumes "board_shape b"
  shows "encode_board b \<noteq> []"
proof -
  from assms obtain r rs where b: "b = r # rs" "length r = 8"
    by (cases b) (auto simp: board_shape_def)
  then have "r \<noteq> []" by auto
  then have "encode_rank r 0 \<noteq> []" using encode_rank_nonempty[of r 0] by simp
  with b show ?thesis by (cases rs) (auto simp: encode_board_def)
qed



lemma six_list:
  assumes "length xs = 6"
  shows "\<exists>a b c d e f. xs = [a, b, c, d, e, f]"
  using assms by (auto simp: length_Suc_conv numeral_eq_Suc)

lemma or_default_nonempty: "d \<noteq> [] \<Longrightarrow> or_default v d \<noteq> []"
  by (auto simp: or_default_def split: option.splits)

lemma rebuild_six_fields:
  assumes "board_shape b" "\<forall>p\<in>set parts. CHR '' '' \<notin> set p"
  shows "six_fields (rebuild_fen b parts)"
  using encode_board_nonempty[OF assms(1)]
  by (simp add: six_fields_def split_rebuild_fen[OF assms(2)] or_default_nonempty)

text \<open>
  The branch that puts the turn back: when the answer differs from the text in the turn
  only, the corrected text is the text itself.
\<close>

lemma corrected_is_text:
  assumes "six_fields f" "fen_field (Suc 0) f = Some t"
    "length (split_on CHR '' '' g) = 6"
    "fen_field 0 g = fen_field 0 f" "fen_field 2 g = fen_field 2 f" "fen_field 3 g = fen_field 3 f"
    "fen_field 4 g = fen_field 4 f" "fen_field 5 g = fen_field 5 f"
  shows "join_with '' '' (set_turn_part (split_on CHR '' '' g) t) = f"
proof -
  from assms(1) obtain a b c d e h where f: "split_on CHR '' '' f = [a, b, c, d, e, h]"
    using six_list[of "split_on CHR '' '' f"] by (auto simp: six_fields_def)
  from assms(3) obtain a' b' c' d' e' h' where g: "split_on CHR '' '' g = [a', b', c', d', e', h']"
    using six_list[of "split_on CHR '' '' g"] by auto
  from assms(2,4-8) f g have "set_turn_part (split_on CHR '' '' g) t = split_on CHR '' '' f"
    by (simp add: fen_field_def nth_opt_def)
  then show ?thesis using join_split[of "CHR '' ''" f] by simp
qed

lemma sync_game_echo:
  assumes "turn_change_only chess" "six_fields newFen" "fen_field (Suc 0) newFen = Some t"
    "fen s = newFen"
  shows "fen (sync_game chess newFen t s) = newFen"
proof (cases "chess newFen")
  case None
  with assms(4) show ?thesis by (simp add: sync_game_def)
next
  case (Some g)
  show ?thesis
  proof (cases "nth_opt (split_on CHR '' '' g) (Suc 0) = Some t")
    case True
    with Some assms(4) show ?thesis by (simp add: sync_game_def Let_def)
  next
    case False
    with assms(3) have "fen_field 1 g \<noteq> fen_field 1 newFen" by (simp add: fen_field_def)
    with assms(1,2) Some have "length (split_on CHR '' '' g) = 6"
      "fen_field 0 g = fen_field 0 newFen" "fen_field 2 g = fen_field 2 newFen"
      "fen_field 3 g = fen_field 3 newFen" "fen_field 4 g = fen_field 4 newFen"
      "fen_field 5 g = fen_field 5 newFen"
      unfolding turn_change_only_def by blast+
    from corrected_is_text[OF assms(2,3) this]
    have "join_with '' '' (set_turn_part (split_on CHR '' '' g) t) = newFen" .
    with Some False assms(4) show ?thesis
      by (auto simp: sync_game_def Let_def split: option.splits)
  qed
qed

lemma commit_board_echo:
  assumes "turn_change_only chess" "board_shape b" "\<forall>p\<in>set parts. CHR '' '' \<notin> set p"
  shows "fen (commit_board chess b parts s) = rebuild_fen b parts"
  unfolding commit_board_def Let_def default_parts_nth
  by (rule sync_game_echo[OF assms(1) rebuild_six_fields[OF assms(2,3)]])
     (simp_all add: fen_field_rebuild[OF assms(3)])

lemma commit_board_absent: "fen (commit_board (\<lambda>f. None) b parts s) = rebuild_fen b parts"
  by (simp add: commit_board_def sync_game_def Let_def)

text \<open>
  The text on display after an edit is the text the edit builds, as if there were no
  library.
\<close>

lemma onDrop_echo:
  assumes "turn_change_only chess"
  shows "fen (snd (onDrop chess src tgt s)) = fen (snd (onDrop (\<lambda>f. None) src tgt s))"
proof (cases "editable_parts (fen s)")
  case None
  then show ?thesis by (simp add: onDrop_def)
next
  case (Some pb)
  obtain parts b where pb: "pb = (parts, b)" by (cases pb)
  note d = editable_partsD[OF Some[unfolded pb]]
  have "fen (commit_board chess (board_set (board_set b r c v) r' c' v') parts s)
      = fen (commit_board (\<lambda>f. None) (board_set (board_set b r c v) r' c' v') parts s)"
    for r c v r' c' v'
    using commit_board_echo[OF assms board_shape_set[OF board_shape_set[OF d(5)]] d(6)]
    by (simp add: commit_board_absent)
  with Some pb show ?thesis
    by (auto simp: onDrop_def Let_def split: option.splits)
qed

lemma handleSquareRightClick_echo:
  assumes "turn_change_only chess"
  shows "fen (handleSquareRightClick chess sq s) = fen (handleSquareRightClick (\<lambda>f. None) sq s)"
proof (cases "editable_parts (fen s)")
  case None
  then show ?thesis by (simp add: handleSquareRightClick_def)
next
  case (Some pb)
  obtain parts b where pb: "pb = (parts, b)" by (cases pb)
  note d = editable_partsD[OF Some[unfolded pb]]
  have "fen (commit_board chess (board_set b r c v) parts s)
      = fen (commit_board (\<lambda>f. None) (board_set b r c v) parts s)" for r c v
    using commit_board_echo[OF assms board_shape_set[OF d(5)] d(6)]
    by (simp add: commit_board_absent)
  with Some pb show ?thesis
    by (auto simp: handleSquareRightClick_def Let_def split: option.splits)
qed

lemma enhancedOnDrop_echo:
  assumes "turn_change_only chess"
  shows "fen (snd (enhancedOnDrop chess src tgt s)) = fen (snd (enhancedOnDrop (\<lambda>f. None) src tgt s))"
proof (cases "editable_parts (fen s)")
  case None
  with onDrop_echo[OF assms] show ?thesis
    by (auto simp: enhancedOnDrop_def Let_def split: option.splits)
next
  case (Some pb)
  obtain parts b where pb: "pb = (parts, b)" by (cases pb)
  note d = editable_partsD[OF Some[unfolded pb]]
  have "fen (commit_board chess (board_set b r c v) parts s')
      = fen (commit_board (\<lambda>f. None) (board_set b r c v) parts s')" for r c v s'
    using commit_board_echo[OF assms board_shape_set[OF d(5)] d(6)]
    by (simp add: commit_board_absent)
  with Some pb onDrop_echo[OF assms] show ?thesis
    by (auto simp: enhancedOnDrop_def Let_def split: option.splits)
qed

lemma handleSwapColors_echo:
  assumes "turn_change_only chess" "six_fields (fen (handleSwapColors (\<lambda>f. None) s))"
  shows "fen (handleSwapColors chess s) = fen (handleSwapColors (\<lambda>f. None) s)"
proof -
  define sp where "sp = split_on CHR '' '' (swapPieceColors (fen s))"
  define pt where "pt = or_default (nth_opt (split_on CHR '' '' (fen s)) 1) (DEFAULT_FEN_PARTS ! 1)"
  define fw where "fw = fen_template (interpolate (nth_opt sp 0)) pt
              (interpolate (nth_opt sp 2)) (interpolate (nth_opt sp 3))
              (interpolate (nth_opt sp 4)) (interpolate (nth_opt sp 5))"
  have ab: "fen (handleSwapColors (\<lambda>f. None) s) = fw"
    by (simp add: handleSwapColors_def Let_def sp_def pt_def fw_def)
  have "\<forall>p\<in>set (split_on CHR '' '' (fen s)). CHR '' '' \<notin> set p"
    using split_on_no_sep by blast
  then have tn: "CHR '' '' \<notin> set pt"
    unfolding pt_def by (intro or_default_no_space) simp_all
  have ns: "\<forall>p\<in>set sp. CHR '' '' \<notin> set p"
    unfolding sp_def using split_on_no_sep by blast
  have "split_on CHR '' '' fw = [interpolate (nth_opt sp 0), pt,
              interpolate (nth_opt sp 2), interpolate (nth_opt sp 3),
              interpolate (nth_opt sp 4), interpolate (nth_opt sp 5)]"
    unfolding fw_def by (rule split_template) (simp_all add: interpolate_no_space[OF ns] tn)
  then have fwt: "fen_field (Suc 0) fw = Some pt"
    by (simp add: fen_field_def nth_opt_def)
  have six: "six_fields fw" using assms(2) ab by simp
  have hs: "handleSwapColors chess s =
     (case chess fw of
        None \<Rightarrow> s\<lparr>fen := fw\<rparr>
      | Some g \<Rightarrow>
          if nth_opt (split_on CHR '' '' g) 1 \<noteq> Some pt then
            (case chess (join_with '' '' (set_turn_part (split_on CHR '' '' g) pt)) of
               Some cg \<Rightarrow> s\<lparr>fen := fw\<rparr>\<lparr>fen := join_with '' '' (set_turn_part (split_on CHR '' '' g) pt),
                                          game := cg\<rparr>
             | None \<Rightarrow> s\<lparr>fen := fw\<rparr>)
          else s\<lparr>fen := fw\<rparr>\<lparr>game := g\<rparr>)"
    unfolding handleSwapColors_def Let_def sp_def pt_def fw_def by (rule refl)
  show ?thesis
  proof (cases "chess fw")
    case None
    then show ?thesis by (simp add: hs ab)
  next
    case (Some g)
    show ?thesis
    proof (cases "nth_opt (split_on CHR '' '' g) (Suc 0) = Some pt")
      case True
      with Some show ?thesis by (simp add: hs ab)
    next
      case False
      with fwt have "fen_field 1 g \<noteq> fen_field 1 fw" by (simp add: fen_field_def)
      with assms(1) six Some have "length (split_on CHR '' '' g) = 6"
        "fen_field 0 g = fen_field 0 fw" "fen_field 2 g = fen_field 2 fw"
        "fen_field 3 g = fen_field 3 fw" "fen_field 4 g = fen_field 4 fw"
        "fen_field 5 g = fen_field 5 fw"
        unfolding turn_change_only_def by blast+
      from corrected_is_text[OF six fwt this]
      have "join_with '' '' (set_turn_part (split_on CHR '' '' g) pt) = fw" .
      with Some False show ?thesis
        by (simp add: hs ab split: option.splits)
    qed
  qed
qed

text \<open>The stand-ins and the library that only checks the format are such libraries.\<close>

lemma turn_change_only_validating:
  "turn_change_only (\<lambda>f. if validateFENFormat f then Some f else None)"
  by (auto simp: turn_change_only_def split: if_splits)

lemma turn_change_only_flipping: "turn_change_only turn_flipping_library"
  unfolding turn_change_only_def
proof (intro allI impI)
  fix f g
  assume a: "six_fields f \<and> turn_flipping_library f = Some g \<and> fen_field 1 g \<noteq> fen_field 1 f"
  then obtain x0 x1 x2 x3 x4 x5 where f: "split_on CHR '' '' f = [x0, x1, x2, x3, x4, x5]"
    using six_list[of "split_on CHR '' '' f"] by (auto simp: six_fields_def)
  define t' where "t' = (if x1 = ''w'' then ''b'' else ''w'')"
  have g: "g = join_with '' '' [x0, t', x2, x3, x4, x5]"
    using a f by (simp add: turn_flipping_library_def t'_def)
  have "\<forall>p\<in>set [x0, t', x2, x3, x4, x5]. CHR '' '' \<notin> set p"
    using split_on_no_sep[of _ "CHR '' ''" f] f by (auto simp: t'_def)
  then have "split_on CHR '' '' (join_with [CHR '' ''] [x0, t', x2, x3, x4, x5]) = [x0, t', x2, x3, x4, x5]"
    by (intro split_join) simp_all
  with g have "split_on CHR '' '' g = [x0, t', x2, x3, x4, x5]" by simp
  with f show "length (split_on CHR '' '' g) = 6
        \<and> fen_field 0 g = fen_field 0 f \<and> fen_field 2 g = fen_field 2 f
        \<and> fen_field 3 g = fen_field 3 f \<and> fen_field 4 g = fen_field 4 f
        \<and> fen_field 5 g = fen_field 5 f"
    by (simp add: fen_field_def nth_opt_def)
qed

text \<open>Without the library the text on display depends on the text before only.\<close>

lemma sync_absent [simp]: "sync_game (\<lambda>f. None) newFen t s = s"
  by (simp add: sync_game_def)

lemma handleSquareRightClick_text:
  "fen (handleSquareRightClick (\<lambda>f. None) sq s)
     = fen (handleSquareRightClick (\<lambda>f. None) sq (text_state (fen s)))"
  by (auto simp: handleSquareRightClick_def commit_board_def text_state_def Let_def
      split: option.splits)

lemma handleSwapColors_text:
  "fen (handleSwapColors (\<lambda>f. None) s) = fen (handleSwapColors (\<lambda>f. None) (text_state (fen s)))"
  by (simp add: handleSwapColors_def text_state_def Let_def)

lemma onDrop_text:
  "fen (snd (onDrop (\<lambda>f. None) src tgt s))
     = fen (snd (onDrop (\<lambda>f. None) src tgt (text_state (fen s))))"
  "fst (onDrop chess src tgt s) = fst (onDrop (\<lambda>f. None) src tgt (text_state (fen s)))"
  by (auto simp: onDrop_def commit_board_def text_state_def Let_def split: option.splits)

lemma edit_text_cases:
  "fen (handleSquareRightClick (\<lambda>f. None) sq s) = fen s
     \<or> (\<exists>b'. fen (handleSquareRightClick (\<lambda>f. None) sq s) = rebuild_fen b' (split_on CHR '' '' (fen s)))"
  "fen (snd (onDrop (\<lambda>f. None) src tgt s)) = fen s
     \<or> (\<exists>b'. fen (snd (onDrop (\<lambda>f. None) src tgt s)) = rebuild_fen b' (split_on CHR '' '' (fen s)))"
  "fen (snd (enhancedOnDrop (\<lambda>f. None) osrc tgt s)) = fen s
     \<or> (\<exists>b'. fen (snd (enhancedOnDrop (\<lambda>f. None) osrc tgt s)) = rebuild_fen b' (split_on CHR '' '' (fen s)))"
  by (auto simp: handleSquareRightClick_def onDrop_def enhancedOnDrop_def commit_board_def
      editable_parts_def Let_def split: option.splits if_splits)

lemma split_rebuild_six:
  assumes "split_on CHR '' '' f = [b, t, c, e, h, m]" "t \<noteq> []" "c \<noteq> []" "e \<noteq> []" "h \<noteq> []" "m \<noteq> []"
  shows "split_on CHR '' '' (rebuild_fen b' (split_on CHR '' '' f)) = [encode_board b', t, c, e, h, m]"
proof -
  have "\<forall>p\<in>set (split_on CHR '' '' f). CHR '' '' \<notin> set p"
    using split_on_no_sep by blast
  from split_rebuild_fen[OF this] assms show ?thesis
    by (simp add: or_default_def nth_opt_def)
qed




section \<open>Series of requests\<close>





section \<open>The cooldown\<close>




section \<open>The worked example\<close>

text \<open>
  Claim C1, as amended. After Reset the FEN is the initial position. For a rules library
  that, whenever it answers with another turn than the text it was given, returns the
  other fields of the text, removing the piece on e2 then gives the rank
  \<^verbatim>\<open>PPPP1PPP\<close> in the seventh place with turn and castling as before, and swapping
  the colours of that position keeps every rank in its place: the gap stays in the
  seventh rank string, the castling field becomes \<^verbatim>\<open>kqKQ\<close> and the turn stays
  \<^verbatim>\<open>w\<close>.
\<close>

theorem reset_remove_swap_example:
  assumes "turn_change_only chess"
  shows "fen (handleReset s) = ''rnbqkbnr/pppppppp/8/8/8/8/PPPPPPPP/RNBQKBNR w KQkq - 0 1''
     \<and> fen (handleSquareRightClick chess ''e2'' (handleReset s))
         = ''rnbqkbnr/pppppppp/8/8/8/8/PPPP1PPP/RNBQKBNR w KQkq - 0 1''
     \<and> fen (handleSwapColors chess (handleSquareRightClick chess ''e2'' (handleReset s)))
         = ''RNBQKBNR/PPPPPPPP/8/8/8/8/pppp1ppp/rnbqkbnr w kqKQ - 0 1''"
proof -
  let ?s1 = "handleSquareRightClick chess ''e2'' (handleReset s)"
  have r: "fen (handleReset s) = initial_fen"
    by (simp add: handleReset_def)
  have e1: "fen (handleSquareRightClick (\<lambda>f. None) ''e2'' (text_state initial_fen))
      = ''rnbqkbnr/pppppppp/8/8/8/8/PPPP1PPP/RNBQKBNR w KQkq - 0 1''"
    by code_simp
  have e2: "fen (handleSwapColors (\<lambda>f. None)
        (text_state ''rnbqkbnr/pppppppp/8/8/8/8/PPPP1PPP/RNBQKBNR w KQkq - 0 1''))
      = ''RNBQKBNR/PPPPPPPP/8/8/8/8/pppp1ppp/rnbqkbnr w kqKQ - 0 1''"
    by code_simp
  have e3: "six_fields ''RNBQKBNR/PPPPPPPP/8/8/8/8/pppp1ppp/rnbqkbnr w kqKQ - 0 1''"
    by code_simp
  have a: "fen ?s1 = ''rnbqkbnr/pppppppp/8/8/8/8/PPPP1PPP/RNBQKBNR w KQkq - 0 1''"
    using handleSquareRightClick_echo[OF assms, of "''e2''" "handleReset s"]
      handleSquareRightClick_text[of "''e2''" "handleReset s"] r e1 by simp
  have n: "fen (handleSwapColors (\<lambda>f. None) ?s1)
      = ''RNBQKBNR/PPPPPPPP/8/8/8/8/pppp1ppp/rnbqkbnr w kqKQ - 0 1''"
    using handleSwapColors_text[of ?s1] a e2 by simp
  have b: "fen (handleSwapColors chess ?s1)
      = ''RNBQKBNR/PPPPPPPP/8/8/8/8/pppp1ppp/rnbqkbnr w kqKQ - 0 1''"
    using handleSwapColors_echo[OF assms, of ?s1] n e3 by simp
  from r a b show ?thesis by (simp add: initial_fen_def)
qed

theorem reset_remove_swap_example_witness:
  "fen (handleSquareRightClick turn_flipping_library ''e2'' (handleReset (text_state [])))
     = ''rnbqkbnr/pppppppp/8/8/8/8/PPPP1PPP/RNBQKBNR w KQkq - 0 1''
   \<and> fen (handleSwapColors turn_flipping_library
       (handleSquareRightClick turn_flipping_library ''e2'' (handleReset (text_state []))))
     = ''RNBQKBNR/PPPPPPPP/8/8/8/8/pppp1ppp/rnbqkbnr w kqKQ - 0 1''"
  using reset_remove_swap_example[OF turn_change_only_flipping, of "text_state []"] by simp

theorem swap_example_counterexample:
  "swapPieceColors ''rnbqkbnr/pppppppp/8/8/8/8/PPPP1PPP/RNBQKBNR w KQkq - 0 1''
     \<noteq> ''RNBQKBNR/PPPP1PPP/8/8/8/8/pppppppp/rnbqkbnr w kqKQ - 0 1''"
  by code_simp


section \<open>Metadata under the board edits\<close>

text \<open>
  Claim C3, as amended. Place, Remove and Move keep the turn of a FEN of six non-empty
  fields whatever the rules library answers. They keep the castling, en-passant,
  halfmove and fullmove fields as well when the library, whenever it answers with
  another turn than the text it was given, returns six fields of which the other five
  are those of the text.
\<close>

theorem edits_preserve_metadata:
  assumes "split_on CHR '' '' (fen s) = [b, t, c, e, h, m]"
    and "t \<noteq> []" "c \<noteq> []" "e \<noteq> []" "h \<noteq> []" "m \<noteq> []"
    and "ed = Place p sq \<or> ed = Remove sq \<or> ed = Move src tgt"
  shows "fen_field 1 (fen (apply_edit chess ed s)) = Some t
       \<and> (turn_change_only chess \<longrightarrow>
            (\<exists>b'. split_on CHR '' '' (fen (apply_edit chess ed s)) = [b', t, c, e, h, m]))"
proof (intro conjI impI)
  have "fen_field (Suc 0) (fen s) = Some t"
    using assms(1) by (simp add: fen_field_def nth_opt_def)
  from apply_edit_turn[OF this assms(2)]
  show "fen_field 1 (fen (apply_edit chess ed s)) = Some t" by simp
next
  assume lib: "turn_change_only chess"
  have "fen (apply_edit chess ed s) = fen s
      \<or> (\<exists>b'. fen (apply_edit chess ed s) = rebuild_fen b' (split_on CHR '' '' (fen s)))"
    using assms(7)
  proof (elim disjE)
    assume "ed = Place p sq"
    then show ?thesis
      using enhancedOnDrop_echo[OF lib, of None sq "s\<lparr>draggedPiece := Some p\<rparr>"]
        edit_text_cases(3)[of None sq "s\<lparr>draggedPiece := Some p\<rparr>"] by simp
  next
    assume "ed = Remove sq"
    then show ?thesis
      using handleSquareRightClick_echo[OF lib, of sq s] edit_text_cases(1)[of sq s] by simp
  next
    assume "ed = Move src tgt"
    then show ?thesis
      using enhancedOnDrop_echo[OF lib, of "Some src" tgt s]
        edit_text_cases(3)[of "Some src" tgt s] by simp
  qed
  then show "\<exists>b'. split_on CHR '' '' (fen (apply_edit chess ed s)) = [b', t, c, e, h, m]"
  proof
    assume "fen (apply_edit chess ed s) = fen s"
    with assms(1) show ?thesis by simp
  next
    assume "\<exists>b'. fen (apply_edit chess ed s) = rebuild_fen b' (split_on CHR '' '' (fen s))"
    then obtain b' where "fen (apply_edit chess ed s) = rebuild_fen b' (split_on CHR '' '' (fen s))" ..
    with split_rebuild_six[OF assms(1-6), of b'] show ?thesis by simp
  qed
qed

theorem edits_preserve_metadata_witness:
  "split_on CHR '' ''
      (fen (apply_edit turn_flipping_library (Move ''e5'' ''e4'')
         (text_state ''rnbqkbnr/pppp1ppp/8/4p3/8/8/PPPPPPPP/RNBQKBNR b Kq e6 5 9'')))
    = [''rnbqkbnr/pppp1ppp/8/8/4p3/8/PPPPPPPP/RNBQKBNR'', ''b'', ''Kq'', ''e6'', ''5'', ''9'']"
proof -
  let ?s = "text_state ''rnbqkbnr/pppp1ppp/8/4p3/8/8/PPPPPPPP/RNBQKBNR b Kq e6 5 9''"
  have h: "split_on CHR '' '' (fen ?s)
      = [''rnbqkbnr/pppp1ppp/8/4p3/8/8/PPPPPPPP/RNBQKBNR'', ''b'', ''Kq'', ''e6'', ''5'', ''9'']"
    by code_simp
  have "\<exists>b'. split_on CHR '' '' (fen (apply_edit turn_flipping_library (Move ''e5'' ''e4'') ?s))
      = [b', ''b'', ''Kq'', ''e6'', ''5'', ''9'']"
    using edits_preserve_metadata[OF h, where ed = "Move ''e5'' ''e4''" and src = "''e5''"
        and tgt = "''e4''" and chess = turn_flipping_library] turn_change_only_flipping
    by simp
  moreover have "fen_field 0 (fen (apply_edit turn_flipping_library (Move ''e5'' ''e4'') ?s))
      = Some ''rnbqkbnr/pppp1ppp/8/8/4p3/8/PPPPPPPP/RNBQKBNR''"
    by code_simp
  ultimately show ?thesis by (auto simp: fen_field_def nth_opt_def)
qed

theorem edits_metadata_counterexample:
  "fen (handleSquareRightClick recomputing_library ''e2''
          (text_state ''rnbqkbnr/pppppppp/8/8/8/8/PPPPPPPP/RNBQKBNR w KQkq - 0 1''))
      = ''rnbqkbnr/pppppppp/8/8/8/8/PPPP1PPP/RNBQKBNR w - - 0 1''
   \<and> fen_field 2 (fen (handleSquareRightClick recomputing_library ''e2''
          (text_state ''rnbqkbnr/pppppppp/8/8/8/8/PPPPPPPP/RNBQKBNR w KQkq - 0 1'')))
      \<noteq> fen_field 2 (fen (text_state ''rnbqkbnr/pppppppp/8/8/8/8/PPPPPPPP/RNBQKBNR w KQkq - 0 1''))"
  by code_simp


section \<open>Turn invariance\<close>

text \<open>
  Claim C4. Whatever the rules library answers, a sequence of Place, Remove, Move,
  Rotate180 and SwapColors leaves the turn field of the FEN as it was, provided the FEN
  has a non-empty turn field to begin with.
\<close>

theorem turn_invariant_under_edits:
  assumes "fen_field 1 (fen s) = Some t" and "t \<noteq> []"
  shows "fen_field 1 (fen (apply_edits chess es s)) = Some t"
  using assms
proof (induction es arbitrary: s)
  case Nil
  then show ?case by simp
next
  case (Cons e es)
  from Cons.prems have "fen_field 1 (fen (apply_edit chess e s)) = Some t"
    using apply_edit_turn[of s t chess e] by simp
  with Cons.IH Cons.prems(2) show ?case by simp
qed

theorem turn_invariant_under_edits_witness:
  "fen_field 1 (fen (apply_edits (\<lambda>f. if validateFENFormat f then Some f else None)
      [Remove ''e2'', SwapColors, Rotate180, Move ''e7'' ''e5'',
       Place \<lparr>ptype = Queen, pcolor = White\<rparr> ''d4'']
      \<lparr>fen = initial_fen, game = initial_fen, draggedPiece = None, isBoardFlipped = False,
        processingError = None\<rparr>)) = Some ''w''"
proof -
  have h: "fen_field 1 (fen \<lparr>fen = initial_fen, game = initial_fen, draggedPiece = None,
      isBoardFlipped = False, processingError = None\<rparr>) = Some ''w''"
    by code_simp
  have n: "''w'' \<noteq> []" by simp
  from turn_invariant_under_edits[OF h n] show ?thesis .
qed

section \<open>The move\<close>




end
